theory Spec2Isabelle
  imports Main "HOL-Library.Word" "HOL-Library.AList"
begin

unbundle bit_operations_syntax

section \<open>Data model of tracer.go\<close>

type_synonym u64 = "64 word"
type_synonym byte = "8 word"

text \<open>TraceID is a pair of 64-bit words; SpanID is a 64-bit word.\<close>

record TraceID =
  High :: u64
  Low :: u64

text \<open>
  A Go map is a reference: two contexts may hold the same map. The program memory that
  holds baggage maps is an explicit store, a list of association lists addressed by
  position. A map value is \<open>None\<close> (the nil map) or the address of a map.
  Lookup in a map reads the first entry of a key.
\<close>

type_synonym gomap = "(string \<times> string) list"
type_synonym mapref = "nat option"
type_synonym heap = "gomap list"

record SpanContext =
  traceID :: TraceID
  spanID :: u64
  parentID :: u64
  flags :: byte
  baggage :: mapref
  debugID :: string

definition zeroTraceID :: TraceID where
  "zeroTraceID = \<lparr>High = 0, Low = 0\<rparr>"

text \<open>The zero value of the struct, what \<open>var ctx SpanContext\<close> declares.\<close>

definition zeroSpanContext :: SpanContext where
  "zeroSpanContext =
     \<lparr>traceID = zeroTraceID, spanID = 0, parentID = 0, flags = 0, baggage = None, debugID = []\<rparr>"

text \<open>
  An \<open>opentracing.SpanContext\<close> is an interface: the value behind it is this tracer's
  SpanContext or a value of some other implementation.
\<close>

datatype ot_context = JaegerCtx SpanContext | ForeignCtx string

text \<open>Tag values are \<open>interface{}\<close>; the dynamic types the code tests for are kept apart.\<close>

datatype tag_value =
    VString string
  | VSpanKindEnum string
  | VUint16 "16 word"
  | VBool bool
  | VInt int

record Tag =
  key :: string
  val :: tag_value

text \<open>
  Modelled from the spec: the reference kinds. \<open>ChildOfRef\<close> and \<open>FollowsFromRef\<close> are
  the two kinds of the OpenTracing API; \<open>selfRefType\<close> is the tracer's own marker of a
  self-reference, declared outside tracer.go.
\<close>

datatype SpanReferenceType = ChildOfRef | FollowsFromRef | selfRefType

record SpanReference =
  Type :: SpanReferenceType
  ReferencedContext :: ot_context

record Reference =
  RefType :: SpanReferenceType
  Context :: SpanContext

record StartSpanOptions =
  References :: "SpanReference list"
  StartTime :: int
  Tags :: "(string \<times> tag_value) list"

datatype error =
    ErrUnsupportedFormat
  | ErrInvalidSpanContext
  | ErrInvalidCarrier
  | ErrSpanContextNotFound
  | ErrSpanContextCorrupted
  | ErrOther string

datatype format = TextMap | HTTPHeaders | Binary | SpanContextFormat | ZipkinSpanFormat
  | CustomFormat string

datatype carrier = TextMapCarrier "(string \<times> string) list" | BinaryCarrier "byte list"

text \<open>
  An injector writes a context into a carrier and returns an error or nil. An extractor
  returns a pair, a context and an error, as the Go method does; it may allocate a
  baggage map.
\<close>

type_synonym Injector = "heap \<Rightarrow> SpanContext \<Rightarrow> carrier \<Rightarrow> error option \<times> carrier"
type_synonym Extractor = "heap \<Rightarrow> carrier \<Rightarrow> (SpanContext \<times> error option) \<times> heap"

text \<open>
  The high trace ID generator is, after construction, either the tracer's own
  \<open>randomNumber\<close> (NewTracer's default in 128-bit mode) or a generator supplied by the
  caller.
\<close>

datatype high_gen = SameAsRandomNumber | CustomGenerator "nat \<Rightarrow> u64"

record tracer_options =
  gen128Bit :: bool
  zipkinSharedRPCSpan :: bool
  highTraceIDGenerator :: high_gen
  maxTagValueLength :: int
  noDebugFlagOnForcedSampling :: bool

text \<open>
  The collaborators are stateful objects behind interfaces. Each is a function of its
  own call history: \<open>randomNumber\<close> of the number of draws made so far, the sampler and
  the debug throttler of the list of calls they have answered.
\<close>

record Tracer =
  serviceName :: string
  sampler :: "(TraceID \<times> string) list \<Rightarrow> TraceID \<Rightarrow> string \<Rightarrow> bool \<times> Tag list"
  debugThrottler :: "string list \<Rightarrow> string \<Rightarrow> bool"
  timeNow :: int
  randomNumber :: "nat \<Rightarrow> u64"
  options :: tracer_options
  injectors :: "format \<rightharpoonup> Injector"
  extractors :: "format \<rightharpoonup> Extractor"
  tracer_tags :: "Tag list"
  reporter :: "nat \<Rightarrow> SpanContext \<Rightarrow> nat"

text \<open>
  The reporter is an external collaborator too. What reportSpan can tell of it is whether
  the span it is given outlives the call: \<open>reporter t k c\<close> is the number of times the
  reporter retains a span of context \<open>c\<close> when it has been given \<open>k\<close> spans before; it is 0
  for a reporter that copies what it needs before it returns.

  A span is a pooled record. \<open>sp_tracer\<close> is the back-reference to the owning tracer,
  nil (\<open>None\<close>) on a clean record; \<open>referenceCounter\<close> is the count that Retain and
  Release keep.
\<close>

record Span =
  sp_tracer :: "Tracer option"
  sp_context :: SpanContext
  operationName :: string
  startTime :: int
  duration :: int
  sp_tags :: "Tag list"
  sp_references :: "Reference list"
  firstInProcess :: bool
  referenceCounter :: int

text \<open>A nil pointer dereference ends the call with a panic.\<close>

datatype panic = NilPointerDereference

record Metrics =
  SpansStartedSampled :: nat
  SpansStartedNotSampled :: nat
  TracesStartedSampled :: nat
  TracesStartedNotSampled :: nat
  TracesJoinedSampled :: nat
  TracesJoinedNotSampled :: nat
  SpansFinished :: nat

datatype observer_event = OnStartSpan string | OnSetTag string tag_value

text \<open>
  Everything a call can change outside the Tracer struct: the memory of baggage maps,
  the positions of the random sources, the call histories of sampler and throttler, the
  counters, what the reporter received, what the allocator got back, the logger's and the
  observer's records.
\<close>

record world =
  maps :: heap
  rand_pos :: nat
  high_pos :: nat
  sampler_calls :: "(TraceID \<times> string) list"
  throttler_calls :: "string list"
  metrics :: Metrics
  reported :: "Span list"
  released :: "Span list"
  logged :: "string list"
  observed :: "observer_event list"

section \<open>Identifier generation\<close>

text \<open>
  \<open>randomID\<close>: draw once, then draw again while the value is 0. The loop has no bound in
  the source, so it is a partial function: \<open>None\<close> is a loop that never ends.
  \<open>randomID_loop rnd pos v\<close> is the loop entered with \<open>val = v\<close> when \<open>pos\<close> draws have
  been made.
\<close>

partial_function (option) randomID_loop :: "(nat \<Rightarrow> u64) \<Rightarrow> nat \<Rightarrow> u64 \<Rightarrow> (u64 \<times> nat) option"
where
  "randomID_loop rnd pos v =
     (if v = 0 then randomID_loop rnd (Suc pos) (rnd pos) else Some (v, pos))"

definition randomID :: "Tracer \<Rightarrow> world \<Rightarrow> (u64 \<times> world) option" where
  "randomID t w =
     (case randomID_loop (randomNumber t) (Suc (rand_pos w)) (randomNumber t (rand_pos w)) of
        None \<Rightarrow> None
      | Some (v, p) \<Rightarrow> Some (v, w\<lparr>rand_pos := p\<rparr>))"

section \<open>Codec registry\<close>

definition addCodec :: "Tracer \<Rightarrow> format \<Rightarrow> Injector \<Rightarrow> Extractor \<Rightarrow> Tracer" where
  "addCodec t fmt injector extractor =
     (let t1 = (if injectors t fmt = None
                then t\<lparr>injectors := (injectors t)(fmt \<mapsto> injector)\<rparr> else t)
      in if extractors t1 fmt = None
         then t1\<lparr>extractors := (extractors t1)(fmt \<mapsto> extractor)\<rparr> else t1)"

text \<open>A sequence of addCodec calls, in call order.\<close>

fun addCodecs :: "Tracer \<Rightarrow> (format \<times> Injector \<times> Extractor) list \<Rightarrow> Tracer" where
  "addCodecs t [] = t"
| "addCodecs t ((fmt, injector, extractor) # cs) = addCodecs (addCodec t fmt injector extractor) cs"

text \<open>
  \<open>Inject\<close> returns the error (nil is \<open>None\<close>) and the carrier the injector wrote to.
  \<open>Extract\<close> returns the pair of the Go method: an interface value, nil when it is
  \<open>None\<close>, and the error.
\<close>

definition Inject :: "Tracer \<Rightarrow> world \<Rightarrow> ot_context \<Rightarrow> format \<Rightarrow> carrier \<Rightarrow> error option \<times> carrier" where
  "Inject t w ctx fmt car =
     (case ctx of
        ForeignCtx _ \<Rightarrow> (Some ErrInvalidSpanContext, car)
      | JaegerCtx c \<Rightarrow>
          (case injectors t fmt of
             Some injector \<Rightarrow> injector (maps w) c car
           | None \<Rightarrow> (Some ErrUnsupportedFormat, car)))"

definition Extract :: "Tracer \<Rightarrow> world \<Rightarrow> format \<Rightarrow> carrier \<Rightarrow> (ot_context option \<times> error option) \<times> world" where
  "Extract t w fmt car =
     (case extractors t fmt of
        Some extractor \<Rightarrow>
          (case extractor (maps w) car of
             ((spanCtx, Some err), h) \<Rightarrow> ((None, Some err), w\<lparr>maps := h\<rparr>)
           | ((spanCtx, None), h) \<Rightarrow> ((Some (JaegerCtx spanCtx), None), w\<lparr>maps := h\<rparr>))
      | None \<Rightarrow> ((None, Some ErrUnsupportedFormat), w))"

section \<open>Span contexts and baggage maps\<close>

text \<open>
  Modelled from the spec: the two bits of the flags byte, \<open>sampled\<close> and \<open>debug\<close>. The
  constants are declared outside tracer.go; the statements below only need them to be two
  different bits.
\<close>

definition flagSampled :: byte where
  "flagSampled = 1"

definition flagDebug :: byte where
  "flagDebug = 2"

text \<open>
  Modelled from the spec: the predicates on contexts, which are methods declared outside
  tracer.go. A trace ID is valid when it is not zero; a context is valid iff its trace ID
  and its span ID are not zero; it is sampled when the sampled bit is set; it is a
  debug-id container when it carries a debug id and no real trace.
\<close>

definition TraceID_IsValid :: "TraceID \<Rightarrow> bool" where
  "TraceID_IsValid tid = (High tid \<noteq> 0 \<or> Low tid \<noteq> 0)"

definition IsValid :: "SpanContext \<Rightarrow> bool" where
  "IsValid c = (TraceID_IsValid (traceID c) \<and> spanID c \<noteq> 0)"

definition IsSampled :: "SpanContext \<Rightarrow> bool" where
  "IsSampled c = (flags c AND flagSampled = flagSampled)"

definition IsDebug :: "SpanContext \<Rightarrow> bool" where
  "IsDebug c = (flags c AND flagDebug = flagDebug)"

definition isDebugIDContainerOnly :: "SpanContext \<Rightarrow> bool" where
  "isDebugIDContainerOnly c = (\<not> TraceID_IsValid (traceID c) \<and> debugID c \<noteq> [])"

text \<open>
  Reading a map through its reference: the nil map reads as empty. \<open>map_range\<close> is what
  a \<open>range\<close> loop visits, each key once with the value a lookup finds; \<open>map_len\<close> is
  Go's \<open>len\<close>, the number of keys. \<open>map_make\<close> allocates a map at an address not in use,
  \<open>map_store\<close> is \<open>m[k] = v\<close> and \<open>map_delete\<close> is \<open>delete(m, k)\<close> on the map at an
  address.
\<close>

definition map_at :: "heap \<Rightarrow> mapref \<Rightarrow> gomap" where
  "map_at h r = (case r of None \<Rightarrow> [] | Some a \<Rightarrow> if a < length h then h ! a else [])"

definition map_range :: "heap \<Rightarrow> mapref \<Rightarrow> (string \<times> string) list" where
  "map_range h r = AList.clearjunk (map_at h r)"

definition map_len :: "heap \<Rightarrow> mapref \<Rightarrow> nat" where
  "map_len h r = length (map_range h r)"

definition map_make :: "heap \<Rightarrow> nat \<times> heap" where
  "map_make h = (length h, h @ [[]])"

definition map_store :: "heap \<Rightarrow> nat \<Rightarrow> string \<Rightarrow> string \<Rightarrow> heap" where
  "map_store h a k v = (if a < length h then h[a := AList.update k v (h ! a)] else h)"

definition map_delete :: "heap \<Rightarrow> nat \<Rightarrow> string \<Rightarrow> heap" where
  "map_delete h a k = (if a < length h then h[a := AList.delete k (h ! a)] else h)"

section \<open>StartSpan: reference resolution\<close>

text \<open>
  The predicate of startSpanWithOptions: a context that may be used as parent, debug ID
  or source of baggage items.
\<close>

definition isValidReference :: "heap \<Rightarrow> SpanContext \<Rightarrow> bool" where
  "isValidReference h ctx =
     (IsValid ctx \<or> isDebugIDContainerOnly ctx \<or> map_len h (baggage ctx) \<noteq> 0)"

text \<open>The variables of the loop over \<open>options.References\<close>, and what the logger is told.\<close>

record ref_state =
  rs_references :: "Reference list"
  rs_parent :: SpanContext
  rs_hasParent :: bool
  rs_ctx :: SpanContext
  rs_isSelfRef :: bool
  rs_logged :: "string list"

definition ref_init :: ref_state where
  "ref_init =
     \<lparr>rs_references = [], rs_parent = zeroSpanContext, rs_hasParent = False,
      rs_ctx = zeroSpanContext, rs_isSelfRef = False, rs_logged = []\<rparr>"

text \<open>One iteration of the loop.\<close>

definition refStep :: "heap \<Rightarrow> ref_state \<Rightarrow> SpanReference \<Rightarrow> ref_state" where
  "refStep h s ref =
     (case ReferencedContext ref of
        ForeignCtx n \<Rightarrow>
          s\<lparr>rs_logged := rs_logged s @ [''Reference contains invalid type of SpanReference: '' @ n]\<rparr>
      | JaegerCtx ctxRef \<Rightarrow>
          if \<not> isValidReference h ctxRef then s
          else if Type ref = selfRefType then s\<lparr>rs_isSelfRef := True, rs_ctx := ctxRef\<rparr>
          else
            (let s1 = s\<lparr>rs_references :=
                         rs_references s @ [\<lparr>RefType = Type ref, Context = ctxRef\<rparr>]\<rparr>
             in if \<not> rs_hasParent s1
                then s1\<lparr>rs_parent := ctxRef, rs_hasParent := (Type ref = ChildOfRef)\<rparr>
                else s1))"

fun refLoop :: "heap \<Rightarrow> ref_state \<Rightarrow> SpanReference list \<Rightarrow> ref_state" where
  "refLoop h s [] = s"
| "refLoop h s (ref # refs) = refLoop h (refStep h s ref) refs"

text \<open>The loop and the test that follows it: a parent that is not ChildOf is accepted.\<close>

definition resolveReferences :: "heap \<Rightarrow> SpanReference list \<Rightarrow> ref_state" where
  "resolveReferences h refs =
     (let s = refLoop h ref_init refs
      in if \<not> rs_hasParent s \<and> isValidReference h (rs_parent s)
         then s\<lparr>rs_hasParent := True\<rparr> else s)"

section \<open>StartSpan: the new context\<close>

definition SpanKindKey :: string where
  "SpanKindKey = ''span.kind''"

definition SamplingPriorityKey :: string where
  "SamplingPriorityKey = ''sampling.priority''"

definition JaegerDebugHeader :: string where
  "JaegerDebugHeader = ''jaeger-debug-id''"

text \<open>
  \<open>options.Tags\<close> is a Go map; the model holds its entries in the order the \<open>range\<close>
  loop of startSpanInternal visits them, and looks a key up with \<open>map_of\<close>.
\<close>

definition isRPCServer :: "(string \<times> tag_value) list \<Rightarrow> bool" where
  "isRPCServer tags =
     (case map_of tags SpanKindKey of
        Some v \<Rightarrow> (v = VSpanKindEnum ''server'' \<or> v = VString ''server'')
      | None \<Rightarrow> False)"

definition isDebugAllowed :: "Tracer \<Rightarrow> world \<Rightarrow> string \<Rightarrow> bool \<times> world" where
  "isDebugAllowed t w operation =
     (debugThrottler t (throttler_calls w) operation,
      w\<lparr>throttler_calls := throttler_calls w @ [operation]\<rparr>)"

definition callSampler :: "Tracer \<Rightarrow> world \<Rightarrow> TraceID \<Rightarrow> string \<Rightarrow> (bool \<times> Tag list) \<times> world" where
  "callSampler t w tid operation =
     (sampler t (sampler_calls w) tid operation,
      w\<lparr>sampler_calls := sampler_calls w @ [(tid, operation)]\<rparr>)"

definition callHighTraceIDGenerator :: "Tracer \<Rightarrow> world \<Rightarrow> u64 \<times> world" where
  "callHighTraceIDGenerator t w =
     (case highTraceIDGenerator (options t) of
        SameAsRandomNumber \<Rightarrow> (randomNumber t (rand_pos w), w\<lparr>rand_pos := Suc (rand_pos w)\<rparr>)
      | CustomGenerator g \<Rightarrow> (g (high_pos w), w\<lparr>high_pos := Suc (high_pos w)\<rparr>))"

text \<open>
  The branch that starts a new trace: \<open>!hasParent || !parent.IsValid()\<close>. It returns the
  context and the sampler tags.
\<close>

definition startNewTrace ::
  "Tracer \<Rightarrow> world \<Rightarrow> string \<Rightarrow> SpanContext \<Rightarrow> SpanContext \<Rightarrow> bool
     \<Rightarrow> ((SpanContext \<times> Tag list) \<times> world) option" where
  "startNewTrace t w opName ctx parent hasParent =
     (case randomID t w of
        None \<Rightarrow> None
      | Some (low, w1) \<Rightarrow>
          (let (high, w2) = (if gen128Bit (options t) then callHighTraceIDGenerator t w1
                             else (High (traceID ctx), w1));
               ctx1 = ctx\<lparr>traceID := \<lparr>High = high, Low = low\<rparr>, spanID := low,
                          parentID := 0, flags := 0\<rparr>;
               (forced, w3) = (if hasParent \<and> isDebugIDContainerOnly parent
                               then isDebugAllowed t w2 opName else (False, w2))
           in if forced
              then Some ((ctx1\<lparr>flags := flags ctx1 OR (flagSampled OR flagDebug)\<rparr>,
                          [\<lparr>key = JaegerDebugHeader, val = VString (debugID parent)\<rparr>]), w3)
              else
                (let ((sampled, tags), w4) = callSampler t w3 (traceID ctx1) opName
                 in if sampled then Some ((ctx1\<lparr>flags := flags ctx1 OR flagSampled\<rparr>, tags), w4)
                    else Some ((ctx1, []), w4))))"

text \<open>The branch that joins the parent's trace.\<close>

definition joinTrace ::
  "Tracer \<Rightarrow> world \<Rightarrow> bool \<Rightarrow> SpanContext \<Rightarrow> SpanContext \<Rightarrow> (SpanContext \<times> world) option" where
  "joinTrace t w rpcServer ctx parent =
     (let ctx1 = ctx\<lparr>traceID := traceID parent\<rparr>
      in if rpcServer \<and> zipkinSharedRPCSpan (options t)
         then Some (ctx1\<lparr>spanID := spanID parent, parentID := parentID parent,
                         flags := flags parent\<rparr>, w)
         else (case randomID t w of
                 None \<Rightarrow> None
               | Some (v, w1) \<Rightarrow>
                   Some (ctx1\<lparr>spanID := v, parentID := spanID parent, flags := flags parent\<rparr>, w1)))"

text \<open>Copying the baggage items of the parent into a map made for the new context.\<close>

fun copyItems :: "heap \<Rightarrow> nat \<Rightarrow> (string \<times> string) list \<Rightarrow> heap" where
  "copyItems h a [] = h"
| "copyItems h a ((k, v) # kvs) = copyItems (map_store h a k v) a kvs"

definition copyBaggage :: "heap \<Rightarrow> SpanContext \<Rightarrow> SpanContext \<Rightarrow> SpanContext \<times> heap" where
  "copyBaggage h ctx parent =
     (if map_len h (baggage parent) > 0
      then (let (a, h1) = map_make h
            in (ctx\<lparr>baggage := Some a\<rparr>, copyItems h1 a (map_range h (baggage parent))))
      else (ctx, h))"

text \<open>
  The block guarded by \<open>!isSelfRef\<close>: the context of the new span, the sampler tags and
  the \<open>newTrace\<close> flag.
\<close>

definition deriveContext ::
  "Tracer \<Rightarrow> world \<Rightarrow> string \<Rightarrow> bool \<Rightarrow> ref_state
     \<Rightarrow> ((SpanContext \<times> Tag list \<times> bool) \<times> world) option" where
  "deriveContext t w opName rpcServer s =
     (if rs_isSelfRef s then Some ((rs_ctx s, [], False), w)
      else
        (case (if \<not> rs_hasParent s \<or> \<not> IsValid (rs_parent s)
               then (case startNewTrace t w opName (rs_ctx s) (rs_parent s) (rs_hasParent s) of
                       None \<Rightarrow> None
                     | Some ((c, tags), w1) \<Rightarrow> Some ((c, tags, True), w1))
               else (case joinTrace t w rpcServer (rs_ctx s) (rs_parent s) of
                       None \<Rightarrow> None
                     | Some (c, w1) \<Rightarrow> Some ((c, [], False), w1))) of
           None \<Rightarrow> None
         | Some ((c, tags, newTrace), w1) \<Rightarrow>
             if rs_hasParent s
             then (let (c1, h1) = copyBaggage (maps w1) c (rs_parent s)
                   in Some ((c1, tags, newTrace), w1\<lparr>maps := h1\<rparr>))
             else Some ((c, tags, newTrace), w1)))"

section \<open>StartSpan: the span\<close>

text \<open>The allocator hands out a clean record.\<close>

definition newSpan :: Span where
  "newSpan =
     \<lparr>sp_tracer = None, sp_context = zeroSpanContext, operationName = [], startTime = 0,
      duration = 0, sp_tags = [], sp_references = [], firstInProcess = False,
      referenceCounter = 0\<rparr>"

text \<open>
  Modelled from the spec: the two helpers of the tag loop, which are declared outside
  tracer.go; the spec names them only by what they do (a tag is stored; the
  sampling-priority tag mutates the sampling flags: priority greater than 0 forces
  sampled, priority 0 un-forces it). \<open>setTagNoLocking\<close> stores a tag at the end of the
  span's tags. \<open>setSamplingPriority\<close> works on the span alone, so what it needs of the
  tracer it reaches through the back-reference that startSpanInternal sets first; tracer.go
  shows the rest of it: the helper's boolean result decides whether the tag is stored, the
  option \<open>noDebugFlagOnForcedSampling\<close> of the Tracer struct is read nowhere in
  tracer.go, and \<open>isDebugAllowed\<close> is to be called by a holder of the span's lock. The
  priority is the 16-bit unsigned value that the tag carries; any other value is refused.
  Priority 0 clears the sampled bit. A priority greater than 0 sets the sampled bit alone
  when \<open>noDebugFlagOnForcedSampling\<close> is on; otherwise it is forced sampling with the
  debug flag, which the debug throttler must allow for the span's operation, and is
  refused when the throttler denies it. The result is true when the flags were updated.
\<close>

definition setTagNoLocking :: "Span \<Rightarrow> string \<Rightarrow> tag_value \<Rightarrow> Span" where
  "setTagNoLocking sp k v = sp\<lparr>sp_tags := sp_tags sp @ [\<lparr>key = k, val = v\<rparr>]\<rparr>"

definition setFlags :: "Span \<Rightarrow> byte \<Rightarrow> Span" where
  "setFlags s f = s\<lparr>sp_context := (sp_context s)\<lparr>flags := f\<rparr>\<rparr>"

definition setSamplingPriority ::
  "world \<Rightarrow> Span \<Rightarrow> tag_value \<Rightarrow> panic + ((bool \<times> Span) \<times> world)" where
  "setSamplingPriority w s v =
     (case v of
        VUint16 n \<Rightarrow>
          if n = 0
          then Inr ((True, setFlags s (flags (sp_context s) AND NOT flagSampled)), w)
          else (case sp_tracer s of
                  None \<Rightarrow> Inl NilPointerDereference
                | Some t \<Rightarrow>
                    if noDebugFlagOnForcedSampling (options t)
                    then Inr ((True, setFlags s (flags (sp_context s) OR flagSampled)), w)
                    else (let (allowed, w1) = isDebugAllowed t w (operationName s)
                          in if allowed
                             then Inr ((True, setFlags s (flags (sp_context s) OR flagDebug
                                                            OR flagSampled)), w1)
                             else Inr ((False, s), w1)))
      | _ \<Rightarrow> Inr ((False, s), w))"

text \<open>The loop over the caller's tags: observer first, then priority or storage.\<close>

fun tagLoop ::
  "Span \<times> world \<Rightarrow> (string \<times> tag_value) list \<Rightarrow> panic + (Span \<times> world)" where
  "tagLoop (sp, w) [] = Inr (sp, w)"
| "tagLoop (sp, w) ((k, v) # kvs) =
     (let w1 = w\<lparr>observed := observed w @ [OnSetTag k v]\<rparr>
      in if k = SamplingPriorityKey
         then (case setSamplingPriority w1 sp v of
                 Inl e \<Rightarrow> Inl e
               | Inr ((ok, sp1), w2) \<Rightarrow>
                   if \<not> ok then tagLoop (sp1, w2) kvs
                   else tagLoop (setTagNoLocking sp1 k v, w2) kvs)
         else tagLoop (setTagNoLocking sp k v, w1) kvs)"

definition inc :: "(Metrics \<Rightarrow> nat) \<Rightarrow> ((nat \<Rightarrow> nat) \<Rightarrow> Metrics \<Rightarrow> Metrics) \<Rightarrow> world \<Rightarrow> world" where
  "inc counter counter_update w = w\<lparr>metrics := counter_update (\<lambda>n. n + 1) (metrics w)\<rparr>"

definition emitStartMetrics :: "world \<Rightarrow> Span \<Rightarrow> bool \<Rightarrow> world" where
  "emitStartMetrics w sp newTrace =
     (if IsSampled (sp_context sp)
      then (let w1 = inc SpansStartedSampled SpansStartedSampled_update w
            in if newTrace then inc TracesStartedSampled TracesStartedSampled_update w1
               else if firstInProcess sp then inc TracesJoinedSampled TracesJoinedSampled_update w1
               else w1)
      else (let w1 = inc SpansStartedNotSampled SpansStartedNotSampled_update w
            in if newTrace then inc TracesStartedNotSampled TracesStartedNotSampled_update w1
               else if firstInProcess sp then inc TracesJoinedNotSampled TracesJoinedNotSampled_update w1
               else w1))"

definition startSpanInternal ::
  "Tracer \<Rightarrow> world \<Rightarrow> Span \<Rightarrow> string \<Rightarrow> int \<Rightarrow> Tag list \<Rightarrow> (string \<times> tag_value) list
     \<Rightarrow> bool \<Rightarrow> bool \<Rightarrow> Reference list \<Rightarrow> panic + (Span \<times> world)" where
  "startSpanInternal t w sp opName start internalTags tags newTrace rpcServer refs =
     (let sp1 = sp\<lparr>sp_tracer := Some t, operationName := opName, startTime := start,
                   duration := 0, sp_references := refs,
                   firstInProcess := (rpcServer \<or> parentID (sp_context sp) = 0)\<rparr>
      in case (if length tags > 0 \<or> length internalTags > 0
               then tagLoop (sp1\<lparr>sp_tags := internalTags\<rparr>, w) tags
               else Inr (sp1, w)) of
           Inl e \<Rightarrow> Inl e
         | Inr (sp2, w2) \<Rightarrow> Inr (sp2, emitStartMetrics w2 sp2 newTrace))"

text \<open>
  The result of startSpanWithOptions: \<open>None\<close> when the call does not return (randomID
  loops for ever), \<open>Some (Inl e)\<close> when it panics, \<open>Some (Inr (sp, w))\<close> when it
  returns the span \<open>sp\<close> and leaves the world \<open>w\<close>.
\<close>

definition startSpanWithOptions ::
  "Tracer \<Rightarrow> world \<Rightarrow> string \<Rightarrow> StartSpanOptions \<Rightarrow> (panic + (Span \<times> world)) option" where
  "startSpanWithOptions t w opName opts =
     (let start = (if StartTime opts = 0 then timeNow t else StartTime opts);
          s = resolveReferences (maps w) (References opts);
          w0 = w\<lparr>logged := logged w @ rs_logged s\<rparr>;
          rpcServer = isRPCServer (Tags opts)
      in case deriveContext t w0 opName rpcServer s of
           None \<Rightarrow> None
         | Some ((ctx, samplerTags, newTrace), w1) \<Rightarrow>
             (let sp = newSpan\<lparr>sp_context := ctx\<rparr>;
                  w2 = w1\<lparr>observed := observed w1 @ [OnStartSpan opName]\<rparr>
              in Some (startSpanInternal t w2 sp opName start samplerTags (Tags opts)
                         newTrace rpcServer (rs_references s))))"

text \<open>StartSpan applies the caller's options to an empty StartSpanOptions, in order.\<close>

definition StartSpan ::
  "Tracer \<Rightarrow> world \<Rightarrow> string \<Rightarrow> (StartSpanOptions \<Rightarrow> StartSpanOptions) list
     \<Rightarrow> (panic + (Span \<times> world)) option" where
  "StartSpan t w opName opts =
     startSpanWithOptions t w opName
       (foldl (\<lambda>sso opt. opt sso) \<lparr>References = [], StartTime = 0, Tags = []\<rparr> opts)"

section \<open>Reporting\<close>

text \<open>
  Modelled from the spec: \<open>Span.Retain\<close> and \<open>Span.Release\<close>, which are declared
  outside tracer.go. A span is owned by its caller until its completion call; a reporter
  that processes spans asynchronously extends the record's lifetime (retain) before it
  returns control and releases it when done, and only then does the allocator reclaim the
  record. The lifetime is the reference count of the record: Retain adds one, Release
  takes one away, and the release that takes the count below zero gives the record back
  to the allocator (\<open>released\<close> is what the allocator got back).

  Report hands the span to the reporter, which retains it \<open>reporter t k c\<close> times
  before it returns.
\<close>

definition Retain :: "Span \<Rightarrow> Span" where
  "Retain sp = sp\<lparr>referenceCounter := referenceCounter sp + 1\<rparr>"

definition Release :: "world \<Rightarrow> Span \<Rightarrow> Span \<times> world" where
  "Release w sp =
     (let sp1 = sp\<lparr>referenceCounter := referenceCounter sp - 1\<rparr>
      in if referenceCounter sp1 = - 1 then (sp1, w\<lparr>released := released w @ [sp1]\<rparr>)
         else (sp1, w))"

definition Report :: "Tracer \<Rightarrow> world \<Rightarrow> Span \<Rightarrow> Span \<times> world" where
  "Report t w sp =
     ((Retain ^^ reporter t (length (reported w)) (sp_context sp)) sp,
      w\<lparr>reported := reported w @ [sp]\<rparr>)"

text \<open>
  reportSpan works on the span through a pointer: the result is the span as the call
  leaves it, and the world.
\<close>

definition reportSpan :: "Tracer \<Rightarrow> world \<Rightarrow> Span \<Rightarrow> Span \<times> world" where
  "reportSpan t w sp =
     (let w1 = inc SpansFinished SpansFinished_update w;
          (sp2, w2) = (if IsSampled (sp_context sp) then Report t w1 sp else (sp, w1))
      in Release w2 sp2)"

section \<open>Statements of the specification, for comparison with the code\<close>

text \<open>
  A usable reference is one whose context is the tracer's own type and passes
  isValidReference. \<open>usableRefs\<close> is the caller's list after the unusable references are
  dropped.
\<close>

definition usable :: "heap \<Rightarrow> SpanReference \<Rightarrow> bool" where
  "usable h r =
     (case ReferencedContext r of JaegerCtx c \<Rightarrow> isValidReference h c | ForeignCtx n \<Rightarrow> False)"

definition refContext :: "SpanReference \<Rightarrow> SpanContext" where
  "refContext r = (case ReferencedContext r of JaegerCtx c \<Rightarrow> c | ForeignCtx n \<Rightarrow> zeroSpanContext)"

definition usableRefs :: "heap \<Rightarrow> SpanReference list \<Rightarrow> SpanReference list" where
  "usableRefs h refs = filter (usable h) refs"

text \<open>
  The parent in the words of the specification: the first usable ChildOf reference, and
  with no such reference the first usable reference of any type.
\<close>

definition specParent :: "heap \<Rightarrow> SpanReference list \<Rightarrow> SpanContext option" where
  "specParent h refs =
     (case find (\<lambda>r. Type r = ChildOfRef) (usableRefs h refs) of
        Some r \<Rightarrow> Some (refContext r)
      | None \<Rightarrow> (case usableRefs h refs of [] \<Rightarrow> None | r # rs \<Rightarrow> Some (refContext r)))"

text \<open>
  The parent the loop leaves behind: the first usable ChildOf reference, and with no such
  reference the last usable reference.
\<close>

definition loopParent :: "heap \<Rightarrow> SpanReference list \<Rightarrow> SpanContext option" where
  "loopParent h refs =
     (case find (\<lambda>r. Type r = ChildOfRef) (usableRefs h refs) of
        Some r \<Rightarrow> Some (refContext r)
      | None \<Rightarrow> (if usableRefs h refs = [] then None else Some (refContext (last (usableRefs h refs)))))"

text \<open>What startSpanWithOptions resolves: the parent, when \<open>hasParent\<close> is set.\<close>

definition resolvedParent :: "heap \<Rightarrow> SpanReference list \<Rightarrow> SpanContext option" where
  "resolvedParent h refs =
     (let s = resolveReferences h refs in if rs_hasParent s then Some (rs_parent s) else None)"

text \<open>A call is a self-reference when the loop has met a usable reference of that kind.\<close>

definition selfReferenced :: "heap \<Rightarrow> SpanReference list \<Rightarrow> bool" where
  "selfReferenced h refs = rs_isSelfRef (resolveReferences h refs)"

text \<open>
  What the tag loop takes from setSamplingPriority: its result, the context it leaves on
  the span and the calls the debug throttler has answered.
\<close>

definition priorityView ::
  "panic + ((bool \<times> Span) \<times> world) \<Rightarrow> (bool \<times> SpanContext \<times> string list) option" where
  "priorityView r =
     (case r of
        Inl e \<Rightarrow> None
      | Inr ((ok, s), w) \<Rightarrow> Some (ok, sp_context s, throttler_calls w))"

text \<open>
  The debug-forced path: the resolved parent is a debug-id container and the debug
  throttler allows the operation.
\<close>

definition debugForced :: "Tracer \<Rightarrow> world \<Rightarrow> string \<Rightarrow> SpanContext option \<Rightarrow> bool" where
  "debugForced t w opName pr =
     (case pr of
        None \<Rightarrow> False
      | Some P \<Rightarrow> isDebugIDContainerOnly P \<and> debugThrottler t (throttler_calls w) opName)"

text \<open>
  The world after the identifiers of a new trace are drawn: \<open>wr\<close> is the world randomID
  leaves, and the high trace ID generator is called in 128-bit mode only.
\<close>

definition afterIDs :: "Tracer \<Rightarrow> world \<Rightarrow> world" where
  "afterIDs t wr = (if gen128Bit (options t) then snd (callHighTraceIDGenerator t wr) else wr)"

text \<open>
  The span that startSpanInternal hands to the tag loop, made of the clean record with
  the context \<open>c\<close>.
\<close>

definition preparedSpan ::
  "Tracer \<Rightarrow> SpanContext \<Rightarrow> string \<Rightarrow> int \<Rightarrow> Tag list \<Rightarrow> bool \<Rightarrow> Reference list \<Rightarrow> Span" where
  "preparedSpan t c opName start stags rpc refs =
     newSpan\<lparr>sp_context := c, sp_tracer := Some t, operationName := opName, startTime := start,
             duration := 0, sp_references := refs,
             firstInProcess := (rpc \<or> parentID c = 0), sp_tags := stags\<rparr>"

text \<open>The span a call returned, if it returned one.\<close>

definition spanOf :: "(panic + (Span \<times> world)) option \<Rightarrow> Span option" where
  "spanOf r = (case r of Some (Inr (sp, w)) \<Rightarrow> Some sp | _ \<Rightarrow> None)"

definition noSelfRef :: "SpanReference list \<Rightarrow> bool" where
  "noSelfRef refs = (list_all (\<lambda>r. Type r \<noteq> selfRefType) refs)"

text \<open>
  What startSpanWithOptions hands to startSpanInternal: the context derived from the
  references, the sampler tags, the \<open>newTrace\<close> flag, and the world at that point.
\<close>

definition derived ::
  "Tracer \<Rightarrow> world \<Rightarrow> string \<Rightarrow> StartSpanOptions \<Rightarrow> ((SpanContext \<times> Tag list \<times> bool) \<times> world) option" where
  "derived t w opName opts =
     (let s = resolveReferences (maps w) (References opts)
      in deriveContext t (w\<lparr>logged := logged w @ rs_logged s\<rparr>) opName (isRPCServer (Tags opts)) s)"

section \<open>Example values\<close>

text \<open>
  A tracer whose sampler never samples and whose debug throttler allows every operation;
  its random source yields 0 twice before the first non-zero value.
\<close>

definition exOptions :: tracer_options where
  "exOptions =
     \<lparr>gen128Bit = False, zipkinSharedRPCSpan = False, highTraceIDGenerator = SameAsRandomNumber,
      maxTagValueLength = 256, noDebugFlagOnForcedSampling = False\<rparr>"

definition exTracer :: Tracer where
  "exTracer =
     \<lparr>serviceName = ''svc'',
      sampler = (\<lambda>calls tid opName. (False, [])),
      debugThrottler = (\<lambda>calls opName. True),
      timeNow = 1000,
      randomNumber = (\<lambda>n. if n < 2 then 0 else 7),
      options = exOptions,
      injectors = Map.empty,
      extractors = Map.empty,
      tracer_tags = [],
      reporter = (\<lambda>k c. 0)\<rparr>"

text \<open>The same tracer with a reporter that retains every span once.\<close>

definition exRetainingTracer :: Tracer where
  "exRetainingTracer = exTracer\<lparr>reporter := (\<lambda>k c. 1)\<rparr>"

text \<open>The same tracer with a debug throttler that denies every operation.\<close>

definition exDenyingTracer :: Tracer where
  "exDenyingTracer = exTracer\<lparr>debugThrottler := (\<lambda>calls opName. False)\<rparr>"

definition exMetrics :: Metrics where
  "exMetrics =
     \<lparr>SpansStartedSampled = 0, SpansStartedNotSampled = 0, TracesStartedSampled = 0,
      TracesStartedNotSampled = 0, TracesJoinedSampled = 0, TracesJoinedNotSampled = 0,
      SpansFinished = 0\<rparr>"

text \<open>A world whose memory holds one baggage map, at address 0.\<close>

definition exWorld :: world where
  "exWorld =
     \<lparr>maps = [[(''k'', ''v'')]], rand_pos = 0, high_pos = 0, sampler_calls = [],
      throttler_calls = [], metrics = exMetrics, reported = [], released = [], logged = [],
      observed = []\<rparr>"

text \<open>Contexts: two valid ones, one that only carries baggage, one that only carries a debug id.\<close>

definition ctxA :: SpanContext where
  "ctxA = \<lparr>traceID = \<lparr>High = 0, Low = 1\<rparr>, spanID = 7, parentID = 3, flags = 1,
           baggage = None, debugID = []\<rparr>"

definition ctxB :: SpanContext where
  "ctxB = \<lparr>traceID = \<lparr>High = 0, Low = 2\<rparr>, spanID = 9, parentID = 0, flags = 0,
           baggage = None, debugID = []\<rparr>"

definition ctxBag :: SpanContext where
  "ctxBag = \<lparr>traceID = \<lparr>High = 0, Low = 0\<rparr>, spanID = 0, parentID = 0, flags = 0,
             baggage = Some 0, debugID = []\<rparr>"

definition ctxDebug :: SpanContext where
  "ctxDebug = \<lparr>traceID = \<lparr>High = 0, Low = 0\<rparr>, spanID = 0, parentID = 0, flags = 0,
               baggage = None, debugID = ''dbg''\<rparr>"

definition ref :: "SpanReferenceType \<Rightarrow> SpanContext \<Rightarrow> SpanReference" where
  "ref ty c = \<lparr>Type = ty, ReferencedContext = JaegerCtx c\<rparr>"

definition exInjector :: Injector where
  "exInjector h c car = (None, car)"

definition exInjector2 :: Injector where
  "exInjector2 h c car = (Some ErrInvalidCarrier, car)"

definition exExtractor :: Extractor where
  "exExtractor h car = ((ctxA, None), h)"

definition exExtractor2 :: Extractor where
  "exExtractor2 h car = ((ctxA, Some ErrSpanContextCorrupted), h)"

section \<open>Identifier generation: properties\<close>

lemma randomID_loop_nonzero:
  "v \<noteq> 0 \<Longrightarrow> randomID_loop rnd pos v = Some (v, pos)"
  by (subst randomID_loop.simps) simp

lemma randomID_loop_zero:
  "randomID_loop rnd pos 0 = randomID_loop rnd (Suc pos) (rnd pos)"
  by (subst randomID_loop.simps) simp

lemma randomID_loop_returns:
  "rnd (pos + k) \<noteq> 0 \<Longrightarrow> \<exists>r p. randomID_loop rnd pos v = Some (r, p) \<and> r \<noteq> 0"
proof (induction k arbitrary: pos v)
  case 0
  show ?case
  proof (cases "v = 0")
    case True
    with 0 show ?thesis by (simp add: randomID_loop_zero randomID_loop_nonzero)
  next
    case False
    then show ?thesis by (simp add: randomID_loop_nonzero)
  qed
next
  case (Suc k)
  show ?case
  proof (cases "v = 0")
    case True
    from Suc.prems have "rnd (Suc pos + k) \<noteq> 0" by simp
    from Suc.IH [OF this, of "rnd pos"] True show ?thesis
      by (simp add: randomID_loop_zero)
  next
    case False
    then show ?thesis by (simp add: randomID_loop_nonzero)
  qed
qed

text \<open>
  C9. Whenever the random source yields a non-zero value at some later draw, randomID
  returns, and the identifier it returns is not 0.
\<close>

theorem randomID_never_zero:
  assumes "\<exists>k. randomNumber t (rand_pos w + k) \<noteq> 0"
  shows "\<exists>v w'. randomID t w = Some (v, w') \<and> v \<noteq> 0"
proof -
  from assms obtain k where k: "randomNumber t (rand_pos w + k) \<noteq> 0" by blast
  show ?thesis
  proof (cases k)
    case 0
    with k have "randomNumber t (rand_pos w) \<noteq> 0" by simp
    then show ?thesis by (simp add: randomID_def randomID_loop_nonzero)
  next
    case (Suc j)
    with k have "randomNumber t (Suc (rand_pos w) + j) \<noteq> 0" by simp
    with randomID_loop_returns
      [of "randomNumber t" "Suc (rand_pos w)" j "randomNumber t (rand_pos w)"]
    obtain r p where
      "randomID_loop (randomNumber t) (Suc (rand_pos w)) (randomNumber t (rand_pos w)) = Some (r, p)"
      and "r \<noteq> 0"
      by blast
    then show ?thesis by (simp add: randomID_def)
  qed
qed

theorem randomID_never_zero_witness:
  "(\<exists>k. randomNumber exTracer (rand_pos exWorld + k) \<noteq> 0) \<and>
   (\<exists>v w'. randomID exTracer exWorld = Some (v, w') \<and> v \<noteq> 0)"
proof -
  have h: "\<exists>k. randomNumber exTracer (rand_pos exWorld + k) \<noteq> 0"
    by (rule exI [of _ 2]) (simp add: exTracer_def exWorld_def)
  from randomID_never_zero [OF h] h show ?thesis by blast
qed

section \<open>Codec registry: properties\<close>

lemma addCodec_injectors:
  "injectors (addCodec t fmt i e) f =
     (if f = fmt \<and> injectors t f = None then Some i else injectors t f)"
  by (auto simp: addCodec_def Let_def)

lemma addCodec_extractors:
  "extractors (addCodec t fmt i e) f =
     (if f = fmt \<and> extractors t f = None then Some e else extractors t f)"
  by (auto simp: addCodec_def Let_def)

text \<open>
  C6. After any sequence of addCodec calls, the injector of a format key is the one the
  registry already held for the key, and otherwise the one of the first call of the
  sequence that names the key (\<open>map_of\<close> finds the first entry); the same holds for the
  extractor. So a key that is present keeps its injector and extractor, and a fresh key
  gets both from its first registration.
\<close>

theorem addCodec_first_registration_wins:
  "injectors (addCodecs t cs) fmt =
     (case injectors t fmt of Some i \<Rightarrow> Some i | None \<Rightarrow> map_option fst (map_of cs fmt)) \<and>
   extractors (addCodecs t cs) fmt =
     (case extractors t fmt of Some e \<Rightarrow> Some e | None \<Rightarrow> map_option snd (map_of cs fmt))"
proof (induction cs arbitrary: t)
  case Nil
  show ?case by (simp split: option.splits)
next
  case (Cons c cs)
  obtain f i e where c: "c = (f, i, e)" by (cases c)
  show ?case
    unfolding c using Cons.IH [of "addCodec t f i e"]
    by (simp add: addCodec_injectors addCodec_extractors split: option.splits)
qed

theorem addCodec_first_registration_wins_witness:
  "injectors (addCodecs exTracer [(TextMap, exInjector, exExtractor), (TextMap, exInjector2, exExtractor2)]) TextMap
     = Some exInjector \<and>
   extractors (addCodecs exTracer [(TextMap, exInjector, exExtractor), (TextMap, exInjector2, exExtractor2)]) TextMap
     = Some exExtractor \<and>
   injectors (addCodecs (addCodec exTracer Binary exInjector2 exExtractor2)
       [(TextMap, exInjector, exExtractor), (Binary, exInjector, exExtractor)]) Binary
     = Some exInjector2"
  using addCodec_first_registration_wins
      [of exTracer "[(TextMap, exInjector, exExtractor), (TextMap, exInjector2, exExtractor2)]" TextMap]
    addCodec_first_registration_wins
      [of "addCodec exTracer Binary exInjector2 exExtractor2"
          "[(TextMap, exInjector, exExtractor), (Binary, exInjector, exExtractor)]" Binary]
  by (simp add: exTracer_def addCodec_injectors)

section \<open>Inject and Extract: properties\<close>

text \<open>
  C7, as stated, fails: Inject does not return UnsupportedFormat whenever the format key
  has no injector. With a context of another implementation and a key that is not
  registered it returns InvalidSpanContext.
\<close>

theorem Inject_unsupported_counterexample:
  "injectors exTracer (CustomFormat ''x'') = None \<and>
   fst (Inject exTracer exWorld (ForeignCtx ''other'') (CustomFormat ''x'') (TextMapCarrier []))
     \<noteq> Some ErrUnsupportedFormat"
  by (simp add: Inject_def exTracer_def)

text \<open>
  C7, amended. Inject returns InvalidSpanContext whenever the context is not the tracer's
  SpanContext type; it returns UnsupportedFormat whenever the context is of that type and
  the format key has no injector. Extract returns UnsupportedFormat, with a nil context,
  for a key with no extractor; whenever the extractor of the key reports an error,
  Extract returns a nil context and that error.
\<close>

theorem Inject_Extract_errors:
  "Inject t w (ForeignCtx n) fmt car = (Some ErrInvalidSpanContext, car) \<and>
   (injectors t fmt = None \<longrightarrow>
      Inject t w (JaegerCtx c) fmt car = (Some ErrUnsupportedFormat, car)) \<and>
   (extractors t fmt = None \<longrightarrow>
      Extract t w fmt car = ((None, Some ErrUnsupportedFormat), w)) \<and>
   (\<forall>ex err. extractors t fmt = Some ex \<and> snd (fst (ex (maps w) car)) = Some err \<longrightarrow>
      fst (Extract t w fmt car) = (None, Some err))"
  by (auto simp: Inject_def Extract_def split: option.splits prod.splits)

theorem Inject_Extract_errors_witness:
  "Inject exTracer exWorld (ForeignCtx ''other'') TextMap (TextMapCarrier [])
     = (Some ErrInvalidSpanContext, TextMapCarrier []) \<and>
   injectors exTracer TextMap = None \<and>
   Inject exTracer exWorld (JaegerCtx ctxA) TextMap (TextMapCarrier [])
     = (Some ErrUnsupportedFormat, TextMapCarrier []) \<and>
   extractors exTracer TextMap = None \<and>
   Extract exTracer exWorld TextMap (TextMapCarrier []) = ((None, Some ErrUnsupportedFormat), exWorld) \<and>
   extractors (exTracer\<lparr>extractors := [TextMap \<mapsto> exExtractor2]\<rparr>) TextMap = Some exExtractor2 \<and>
   snd (fst (exExtractor2 (maps exWorld) (TextMapCarrier []))) = Some ErrSpanContextCorrupted \<and>
   fst (Extract (exTracer\<lparr>extractors := [TextMap \<mapsto> exExtractor2]\<rparr>) exWorld TextMap (TextMapCarrier []))
     = (None, Some ErrSpanContextCorrupted)"
  using Inject_Extract_errors [of exTracer exWorld "''other''" TextMap "TextMapCarrier []" ctxA]
    Inject_Extract_errors [of "exTracer\<lparr>extractors := [TextMap \<mapsto> exExtractor2]\<rparr>" exWorld
       "''other''" TextMap "TextMapCarrier []" ctxA]
  by (simp add: exTracer_def exExtractor2_def)

text \<open>
  C10. Inject tests the type of the context before it looks the format up: with a context
  of another implementation and a format key that has no injector, the error is
  InvalidSpanContext, not UnsupportedFormat.
\<close>

theorem Inject_checks_context_first:
  assumes "injectors t fmt = None"
  shows "fst (Inject t w (ForeignCtx n) fmt car) = Some ErrInvalidSpanContext \<and>
         fst (Inject t w (ForeignCtx n) fmt car) \<noteq> Some ErrUnsupportedFormat"
  by (simp add: Inject_def)

theorem Inject_checks_context_first_witness:
  "injectors exTracer Binary = None \<and>
   fst (Inject exTracer exWorld (ForeignCtx ''other'') Binary (BinaryCarrier [])) = Some ErrInvalidSpanContext \<and>
   fst (Inject exTracer exWorld (ForeignCtx ''other'') Binary (BinaryCarrier [])) \<noteq> Some ErrUnsupportedFormat"
proof -
  have h: "injectors exTracer Binary = None" by (simp add: exTracer_def)
  from Inject_checks_context_first [OF h, of exWorld "''other''" "BinaryCarrier []"] h
  show ?thesis by simp
qed

section \<open>Reference resolution: properties\<close>

lemma not_valid_zero: "\<not> isValidReference h zeroSpanContext"
  by (simp add: isValidReference_def IsValid_def isDebugIDContainerOnly_def zeroSpanContext_def
      zeroTraceID_def TraceID_IsValid_def map_len_def map_range_def map_at_def)

lemma refStep_cases:
  "Type r \<noteq> selfRefType \<Longrightarrow>
   rs_hasParent (refStep h s r) =
     (rs_hasParent s \<or> (usable h r \<and> Type r = ChildOfRef)) \<and>
   rs_parent (refStep h s r) =
     (if \<not> rs_hasParent s \<and> usable h r then refContext r else rs_parent s) \<and>
   rs_isSelfRef (refStep h s r) = rs_isSelfRef s \<and>
   rs_ctx (refStep h s r) = rs_ctx s"
  by (auto simp: refStep_def usable_def refContext_def Let_def split: ot_context.splits)

lemma refLoop_parent:
  "noSelfRef refs \<Longrightarrow>
   (rs_hasParent s \<longrightarrow>
      rs_hasParent (refLoop h s refs) \<and> rs_parent (refLoop h s refs) = rs_parent s) \<and>
   (\<not> rs_hasParent s \<longrightarrow>
      (case find (\<lambda>r. Type r = ChildOfRef) (usableRefs h refs) of
         Some r \<Rightarrow> rs_hasParent (refLoop h s refs) \<and> rs_parent (refLoop h s refs) = refContext r
       | None \<Rightarrow> \<not> rs_hasParent (refLoop h s refs) \<and>
           rs_parent (refLoop h s refs) =
             (if usableRefs h refs = [] then rs_parent s else refContext (last (usableRefs h refs)))))"
  unfolding usableRefs_def
proof (induction refs arbitrary: s)
  case Nil
  show ?case by simp
next
  case (Cons r refs)
  from Cons.prems have r: "Type r \<noteq> selfRefType" and rest: "noSelfRef refs"
    by (simp_all add: noSelfRef_def)
  note step = refStep_cases [OF r, of h s]
  note IH = Cons.IH [OF rest, of "refStep h s r"]
  show ?case
  proof (cases "rs_hasParent s")
    case True
    with step IH show ?thesis by simp
  next
    case False
    show ?thesis
    proof (cases "usable h r")
      case u: True
      show ?thesis
      proof (cases "Type r = ChildOfRef")
        case True
        with False u step IH show ?thesis by simp
      next
        case nc: False
        with False u step IH show ?thesis
          by (auto split: option.splits)
      qed
    next
      case nu: False
      with False step IH show ?thesis by (auto split: option.splits)
    qed
  qed
qed

lemma usable_last:
  "usableRefs h refs \<noteq> [] \<Longrightarrow> isValidReference h (refContext (last (usableRefs h refs)))"
proof -
  assume ne: "usableRefs h refs \<noteq> []"
  then have "last (usableRefs h refs) \<in> set (usableRefs h refs)" by simp
  then have "usable h (last (usableRefs h refs))" by (simp add: usableRefs_def)
  then show ?thesis by (auto simp: usable_def refContext_def split: ot_context.splits)
qed

lemmas ex_defs = exWorld_def ctxA_def ctxB_def ctxBag_def ctxDebug_def ref_def
  isValidReference_def IsValid_def TraceID_IsValid_def isDebugIDContainerOnly_def
  map_len_def map_range_def map_at_def

text \<open>
  C1, as stated, fails. With two usable FollowsFrom references and no ChildOf reference,
  the specification names the first one as parent; the loop overwrites \<open>parent\<close> at
  each usable reference until a ChildOf reference is met, and ends with the second one.
\<close>

theorem first_usable_parent_counterexample:
  "noSelfRef [ref FollowsFromRef ctxA, ref FollowsFromRef ctxB] \<and>
   usableRefs (maps exWorld) [ref FollowsFromRef ctxA, ref FollowsFromRef ctxB]
     = [ref FollowsFromRef ctxA, ref FollowsFromRef ctxB] \<and>
   specParent (maps exWorld) [ref FollowsFromRef ctxA, ref FollowsFromRef ctxB] = Some ctxA \<and>
   resolvedParent (maps exWorld) [ref FollowsFromRef ctxA, ref FollowsFromRef ctxB] = Some ctxB \<and>
   ctxA \<noteq> ctxB"
  by (simp add: noSelfRef_def usableRefs_def usable_def specParent_def refContext_def
      resolvedParent_def resolveReferences_def refStep_def ref_init_def Let_def ex_defs)

text \<open>
  C1, amended. For a list of references with no self-reference, the parent resolved for
  the new span is the first ChildOf reference with a usable context; if there is no such
  reference, the parent is the last usable reference of the list; if no reference is
  usable, there is no parent.
\<close>

theorem parent_resolution:
  assumes "noSelfRef refs"
  shows "resolvedParent h refs = loopParent h refs"
proof -
  let ?s = "refLoop h ref_init refs"
  have init: "\<not> rs_hasParent ref_init" "rs_parent ref_init = zeroSpanContext"
    by (simp_all add: ref_init_def)
  note L = refLoop_parent [OF assms, of ref_init h]
  show ?thesis
  proof (cases "find (\<lambda>r. Type r = ChildOfRef) (usableRefs h refs)")
    case (Some r)
    with L init have "rs_hasParent ?s" "rs_parent ?s = refContext r" by simp_all
    with Some show ?thesis
      by (simp add: resolvedParent_def resolveReferences_def loopParent_def Let_def)
  next
    case None
    with L init have np: "\<not> rs_hasParent ?s"
      and p: "rs_parent ?s = (if usableRefs h refs = [] then zeroSpanContext
                              else refContext (last (usableRefs h refs)))"
      by simp_all
    show ?thesis
    proof (cases "usableRefs h refs = []")
      case True
      with np p None show ?thesis
        by (simp add: resolvedParent_def resolveReferences_def loopParent_def Let_def not_valid_zero)
    next
      case False
      with np p None usable_last [OF False] show ?thesis
        by (simp add: resolvedParent_def resolveReferences_def loopParent_def Let_def)
    qed
  qed
qed

theorem parent_resolution_witness:
  "noSelfRef [ref FollowsFromRef ctxB, ref ChildOfRef ctxDebug, ref ChildOfRef ctxA] \<and>
   resolvedParent (maps exWorld) [ref FollowsFromRef ctxB, ref ChildOfRef ctxDebug, ref ChildOfRef ctxA]
     = Some ctxDebug \<and>
   noSelfRef [ref FollowsFromRef ctxA, ref FollowsFromRef ctxBag] \<and>
   resolvedParent (maps exWorld) [ref FollowsFromRef ctxA, ref FollowsFromRef ctxBag] = Some ctxBag"
proof -
  have h1: "noSelfRef [ref FollowsFromRef ctxB, ref ChildOfRef ctxDebug, ref ChildOfRef ctxA]"
    and h2: "noSelfRef [ref FollowsFromRef ctxA, ref FollowsFromRef ctxBag]"
    by (simp_all add: noSelfRef_def ref_def)
  from parent_resolution [OF h1, of "maps exWorld"] parent_resolution [OF h2, of "maps exWorld"] h1 h2
  show ?thesis
    by (simp add: loopParent_def usableRefs_def usable_def refContext_def ex_defs)
qed

section \<open>StartSpan: the derived context\<close>

lemma randomID_loop_result:
  assumes "randomID_loop rnd pos v = Some rp"
  shows "fst rp \<noteq> 0"
proof (rule randomID_loop.raw_induct [where P = "\<lambda>rnd pos v y. fst y \<noteq> 0", OF _ assms])
  fix f :: "(nat \<Rightarrow> u64) \<Rightarrow> nat \<Rightarrow> u64 \<Rightarrow> (u64 \<times> nat) option"
    and rnd pos v y
  assume "\<And>pos v b y. f pos v b = Some y \<Longrightarrow> fst y \<noteq> 0"
    and "(if v = 0 then f rnd (Suc pos) (rnd pos) else Some (v, pos)) = Some y"
  then show "fst y \<noteq> 0" by (auto split: if_splits)
qed

lemma randomID_frame:
  "randomID t w = Some (v, w1) \<Longrightarrow>
     v \<noteq> 0 \<and> maps w1 = maps w \<and> high_pos w1 = high_pos w \<and>
     sampler_calls w1 = sampler_calls w \<and> throttler_calls w1 = throttler_calls w \<and>
     logged w1 = logged w"
  by (auto simp: randomID_def split: option.splits dest: randomID_loop_result)

lemma randomID_logged:
  "randomID t (w\<lparr>logged := l\<rparr>) = Some (v, wr) \<Longrightarrow>
     \<exists>wr'. randomID t w = Some (v, wr') \<and> rand_pos wr' = rand_pos wr"
  by (auto simp: randomID_def split: option.splits)

lemma randomID_logged_eq:
  "randomID t (w\<lparr>logged := l\<rparr>) = Some (v, wr) \<Longrightarrow>
     \<exists>wr'. randomID t w = Some (v, wr') \<and> wr = wr'\<lparr>logged := l\<rparr>"
  by (auto simp: randomID_def split: option.splits)

lemma refStep_self:
  "(rs_isSelfRef s \<longrightarrow> rs_isSelfRef (refStep h s r)) \<and>
   (\<not> rs_isSelfRef (refStep h s r) \<longrightarrow> rs_ctx (refStep h s r) = rs_ctx s)"
  by (simp add: refStep_def Let_def split: ot_context.splits)

lemma refLoop_self:
  "\<not> rs_isSelfRef (refLoop h s refs) \<Longrightarrow>
     \<not> rs_isSelfRef s \<and> rs_ctx (refLoop h s refs) = rs_ctx s"
proof (induction refs arbitrary: s)
  case Nil
  then show ?case by simp
next
  case (Cons r refs)
  from Cons.prems have "\<not> rs_isSelfRef (refLoop h (refStep h s r) refs)" by simp
  from Cons.IH [OF this] refStep_self [of s h r] show ?case by auto
qed

lemma not_selfReferenced_ctx:
  "\<not> selfReferenced h refs \<Longrightarrow>
     \<not> rs_isSelfRef (resolveReferences h refs) \<and> rs_ctx (resolveReferences h refs) = zeroSpanContext"
  using refLoop_self [of h ref_init refs]
  by (simp add: selfReferenced_def resolveReferences_def Let_def ref_init_def split: if_splits)

lemma resolvedParent_Some:
  "resolvedParent h refs = Some P \<Longrightarrow>
     rs_hasParent (resolveReferences h refs) \<and> rs_parent (resolveReferences h refs) = P"
  by (simp add: resolvedParent_def Let_def split: if_splits)

lemma resolvedParent_None:
  "resolvedParent h refs = None \<Longrightarrow> \<not> rs_hasParent (resolveReferences h refs)"
  by (simp add: resolvedParent_def Let_def split: if_splits)

lemma resolvedParent_eq:
  "resolvedParent h refs =
     (if rs_hasParent (resolveReferences h refs) then Some (rs_parent (resolveReferences h refs))
      else None)"
  by (simp add: resolvedParent_def Let_def)

lemma copyBaggage_context:
  "traceID (fst (copyBaggage h c P)) = traceID c \<and> spanID (fst (copyBaggage h c P)) = spanID c \<and>
   parentID (fst (copyBaggage h c P)) = parentID c \<and> flags (fst (copyBaggage h c P)) = flags c \<and>
   debugID (fst (copyBaggage h c P)) = debugID c"
  by (simp add: copyBaggage_def map_make_def Let_def)

lemma deriveContext_join:
  assumes "deriveContext t w opName rpc s = Some ((c, stags, nt), w1)"
    and "\<not> rs_isSelfRef s" and "rs_hasParent s" and "IsValid (rs_parent s)"
  shows "\<exists>c0 w0. joinTrace t w rpc (rs_ctx s) (rs_parent s) = Some (c0, w0) \<and>
           c = fst (copyBaggage (maps w0) c0 (rs_parent s)) \<and>
           w1 = w0\<lparr>maps := snd (copyBaggage (maps w0) c0 (rs_parent s))\<rparr> \<and>
           stags = [] \<and> \<not> nt"
proof (cases "joinTrace t w rpc (rs_ctx s) (rs_parent s)")
  case None
  with assms show ?thesis by (simp add: deriveContext_def)
next
  case (Some x)
  obtain c0 w0 where x: "x = (c0, w0)" by (cases x)
  from assms Some x show ?thesis
    by (auto simp: deriveContext_def Let_def split_beta)
qed

lemma joinTrace_result:
  assumes "joinTrace t w rpc ctx P = Some (c0, w0)"
  shows "traceID c0 = traceID P \<and> flags c0 = flags P \<and> maps w0 = maps w \<and>
         (if rpc \<and> zipkinSharedRPCSpan (options t)
          then spanID c0 = spanID P \<and> parentID c0 = parentID P \<and> w0 = w
          else parentID c0 = spanID P \<and> spanID c0 \<noteq> 0 \<and> randomID t w = Some (spanID c0, w0))"
proof (cases "rpc \<and> zipkinSharedRPCSpan (options t)")
  case True
  with assms show ?thesis by (auto simp: joinTrace_def Let_def)
next
  case False
  show ?thesis
  proof (cases "randomID t w")
    case None
    with assms False show ?thesis by (auto simp: joinTrace_def Let_def)
  next
    case (Some x)
    obtain v wr where x: "x = (v, wr)" by (cases x)
    from randomID_frame [of t w v wr] Some x
    have "v \<noteq> 0" and "maps wr = maps w" by simp_all
    with assms False Some x show ?thesis by (auto simp: joinTrace_def Let_def)
  qed
qed

lemma callHighTraceIDGenerator_frame:
  "maps (snd (callHighTraceIDGenerator t w)) = maps w \<and>
   sampler_calls (snd (callHighTraceIDGenerator t w)) = sampler_calls w \<and>
   throttler_calls (snd (callHighTraceIDGenerator t w)) = throttler_calls w"
  by (simp add: callHighTraceIDGenerator_def split: high_gen.splits)

lemma callHighTraceIDGenerator_logged:
  "fst (callHighTraceIDGenerator t (w\<lparr>logged := l\<rparr>)) = fst (callHighTraceIDGenerator t w) \<and>
   rand_pos (snd (callHighTraceIDGenerator t (w\<lparr>logged := l\<rparr>)))
     = rand_pos (snd (callHighTraceIDGenerator t w)) \<and>
   high_pos (snd (callHighTraceIDGenerator t (w\<lparr>logged := l\<rparr>)))
     = high_pos (snd (callHighTraceIDGenerator t w))"
  by (simp add: callHighTraceIDGenerator_def split: high_gen.splits)

lemma startNewTrace_result:
  assumes "startNewTrace t w opName ctx P hp = Some ((c, stags), w1)"
  shows "\<exists>low wr. randomID t w = Some (low, wr) \<and> low \<noteq> 0 \<and>
     Low (traceID c) = low \<and> spanID c = low \<and> parentID c = 0 \<and>
     High (traceID c) = (if gen128Bit (options t) then fst (callHighTraceIDGenerator t wr)
                         else High (traceID ctx)) \<and>
     baggage c = baggage ctx \<and> maps w1 = maps w \<and>
     rand_pos w1 = rand_pos (afterIDs t wr) \<and> high_pos w1 = high_pos (afterIDs t wr) \<and>
     throttler_calls w1 = (if hp \<and> isDebugIDContainerOnly P then throttler_calls w @ [opName]
                           else throttler_calls w) \<and>
     (if hp \<and> isDebugIDContainerOnly P \<and> debugThrottler t (throttler_calls w) opName
      then flags c = flagSampled OR flagDebug \<and>
           stags = [\<lparr>key = JaegerDebugHeader, val = VString (debugID P)\<rparr>] \<and>
           sampler_calls w1 = sampler_calls w
      else sampler_calls w1 = sampler_calls w @ [(traceID c, opName)] \<and>
           flags c = (if fst (sampler t (sampler_calls w) (traceID c) opName) then flagSampled else 0) \<and>
           stags = (if fst (sampler t (sampler_calls w) (traceID c) opName)
                    then snd (sampler t (sampler_calls w) (traceID c) opName) else []))"
proof (cases "randomID t w")
  case None
  with assms show ?thesis by (simp add: startNewTrace_def)
next
  case (Some x)
  obtain low wr where x: "x = (low, wr)" by (cases x)
  note fr = randomID_frame [of t w low wr] callHighTraceIDGenerator_frame [of t wr]
  from Some x fr have low: "low \<noteq> 0" by simp
  define high where "high = (if gen128Bit (options t) then fst (callHighTraceIDGenerator t wr)
                             else High (traceID ctx))"
  define ctx1 where "ctx1 = ctx\<lparr>traceID := \<lparr>High = high, Low = low\<rparr>, spanID := low,
                          parentID := 0, flags := 0\<rparr>"
  define w2 where "w2 = afterIDs t wr"
  define r where "r = sampler t (sampler_calls w) (traceID ctx1) opName"
  have w2: "maps w2 = maps w" "sampler_calls w2 = sampler_calls w"
    "throttler_calls w2 = throttler_calls w"
    using Some x fr by (simp_all add: w2_def afterIDs_def)
  have pre: "(if gen128Bit (options t) then callHighTraceIDGenerator t wr
              else (High (traceID ctx), wr)) = (high, w2)"
    by (simp add: high_def w2_def afterIDs_def)
  have ctx1: "Low (traceID ctx1) = low" "High (traceID ctx1) = high" "spanID ctx1 = low"
    "parentID ctx1 = 0" "baggage ctx1 = baggage ctx" "flags ctx1 = 0"
    by (simp_all add: ctx1_def)
  have eq: "startNewTrace t w opName ctx P hp =
     (if hp \<and> isDebugIDContainerOnly P \<and> debugThrottler t (throttler_calls w) opName
      then Some ((ctx1\<lparr>flags := flagSampled OR flagDebug\<rparr>,
                  [\<lparr>key = JaegerDebugHeader, val = VString (debugID P)\<rparr>]),
                 w2\<lparr>throttler_calls := throttler_calls w @ [opName]\<rparr>)
      else Some ((if fst r then ctx1\<lparr>flags := flagSampled\<rparr> else ctx1,
                  if fst r then snd r else []),
                 w2\<lparr>throttler_calls := (if hp \<and> isDebugIDContainerOnly P
                                          then throttler_calls w @ [opName] else throttler_calls w),
                    sampler_calls := sampler_calls w @ [(traceID ctx1, opName)]\<rparr>))"
  proof -
    have wfix: "w2\<lparr>throttler_calls := throttler_calls w\<rparr> = w2" using w2 by simp
    show ?thesis
      apply (cases hp; cases "isDebugIDContainerOnly P";
          cases "debugThrottler t (throttler_calls w) opName")
             apply (simp_all add: startNewTrace_def Some x pre isDebugAllowed_def callSampler_def
          split_beta ctx1_def r_def w2 wfix)
      done
  qed
  show ?thesis
  proof (cases "hp \<and> isDebugIDContainerOnly P \<and> debugThrottler t (throttler_calls w) opName")
    case True
    with assms eq have "c = ctx1\<lparr>flags := flagSampled OR flagDebug\<rparr>"
      "stags = [\<lparr>key = JaegerDebugHeader, val = VString (debugID P)\<rparr>]"
      "w1 = w2\<lparr>throttler_calls := throttler_calls w @ [opName]\<rparr>"
      by simp_all
    with True Some x low ctx1 w2 show ?thesis
      by (simp add: high_def w2_def)
  next
    case False
    with assms eq have c: "c = (if fst r then ctx1\<lparr>flags := flagSampled\<rparr> else ctx1)"
      and st: "stags = (if fst r then snd r else [])"
      and w1: "w1 = w2\<lparr>throttler_calls := (if hp \<and> isDebugIDContainerOnly P
                                          then throttler_calls w @ [opName] else throttler_calls w),
                    sampler_calls := sampler_calls w @ [(traceID ctx1, opName)]\<rparr>"
      by simp_all
    from c have tc: "traceID c = traceID ctx1" by simp
    from c ctx1 have fl: "flags c = (if fst r then flagSampled else 0)" by simp
    from c ctx1 have ids: "Low (traceID c) = low" "High (traceID c) = high" "spanID c = low"
      "parentID c = 0" "baggage c = baggage ctx" by simp_all
    from w1 w2 have ws: "maps w1 = maps w" "rand_pos w1 = rand_pos w2" "high_pos w1 = high_pos w2"
      "sampler_calls w1 = sampler_calls w @ [(traceID ctx1, opName)]"
      "throttler_calls w1 = (if hp \<and> isDebugIDContainerOnly P
                             then throttler_calls w @ [opName] else throttler_calls w)"
      by simp_all
    from False Some x low ids fl st ws tc show ?thesis
      by (simp add: high_def w2_def r_def)
  qed
qed

lemma afterIDs_logged:
  "rand_pos (afterIDs t (w\<lparr>logged := l\<rparr>)) = rand_pos (afterIDs t w) \<and>
   high_pos (afterIDs t (w\<lparr>logged := l\<rparr>)) = high_pos (afterIDs t w)"
  by (simp add: afterIDs_def callHighTraceIDGenerator_logged)

lemma deriveContext_new:
  assumes "deriveContext t w opName rpc s = Some ((c, stags, nt), w1)"
    and "\<not> rs_isSelfRef s" and "\<not> rs_hasParent s \<or> \<not> IsValid (rs_parent s)"
  shows "\<exists>c0 w0. startNewTrace t w opName (rs_ctx s) (rs_parent s) (rs_hasParent s)
             = Some ((c0, stags), w0) \<and> nt \<and>
           c = (if rs_hasParent s then fst (copyBaggage (maps w0) c0 (rs_parent s)) else c0) \<and>
           w1 = (if rs_hasParent s
                 then w0\<lparr>maps := snd (copyBaggage (maps w0) c0 (rs_parent s))\<rparr> else w0)"
proof (cases "startNewTrace t w opName (rs_ctx s) (rs_parent s) (rs_hasParent s)")
  case None
  with assms show ?thesis by (auto simp: deriveContext_def)
next
  case (Some x)
  obtain c0 st w0 where x: "x = ((c0, st), w0)" by (cases x) auto
  from assms Some x show ?thesis
    by (auto simp: deriveContext_def Let_def split_beta)
qed

lemma map_store_last:
  "map_store (h @ [m]) (length h) k v = h @ [AList.update k v m]"
  by (simp add: map_store_def)

lemma copyItems_last:
  "copyItems (h @ [m]) (length h) kvs = h @ [foldl (\<lambda>m (k, v). AList.update k v m) m kvs]"
proof (induction kvs arbitrary: m)
  case Nil
  show ?case by simp
next
  case (Cons kv kvs)
  obtain k v where kv: "kv = (k, v)" by (cases kv)
  show ?case unfolding kv by (simp add: map_store_last Cons.IH)
qed

lemma map_of_foldl_update:
  "distinct (map fst kvs) \<Longrightarrow>
     map_of (foldl (\<lambda>m (k, v). AList.update k v m) m kvs) = map_of m ++ map_of kvs"
proof (induction kvs arbitrary: m)
  case Nil
  show ?case by simp
next
  case (Cons kv kvs)
  obtain k v where kv: "kv = (k, v)" by (cases kv)
  from Cons.prems kv have d: "distinct (map fst kvs)" and k: "map_of kvs k = None"
    by (auto simp: map_of_eq_None_iff)
  have "map_of (foldl (\<lambda>m (k, v). AList.update k v m) (AList.update k v m) kvs)
          = map_of (AList.update k v m) ++ map_of kvs"
    by (rule Cons.IH [OF d])
  also have "\<dots> = map_of m ++ (map_of kvs)(k \<mapsto> v)"
    using k by (auto simp: AList.update_conv' map_add_def fun_eq_iff split: option.splits)
  finally have "map_of (foldl (\<lambda>m (k, v). AList.update k v m) (AList.update k v m) kvs)
          = map_of m ++ (map_of kvs)(k \<mapsto> v)" .
  then show ?case unfolding kv by (simp del: fun_upd_apply)
qed

lemma copyBaggage_result:
  assumes "0 < map_len h (baggage P)"
  shows "\<exists>m. copyBaggage h c P = (c\<lparr>baggage := Some (length h)\<rparr>, h @ [m]) \<and>
             map_of m = map_of (map_at h (baggage P))"
proof -
  let ?kvs = "map_range h (baggage P)"
  let ?m = "foldl (\<lambda>m (k, v). AList.update k v m) [] ?kvs"
  have "distinct (map fst ?kvs)" by (simp add: map_range_def)
  then have "map_of ?m = map_of ?kvs" by (simp add: map_of_foldl_update)
  then have m: "map_of ?m = map_of (map_at h (baggage P))"
    by (simp add: map_range_def map_of_clearjunk)
  from assms have "copyBaggage h c P = (c\<lparr>baggage := Some (length h)\<rparr>, h @ [?m])"
    by (simp add: copyBaggage_def map_make_def copyItems_last)
  with m show ?thesis by blast
qed

lemma map_len_address:
  "0 < map_len h r \<Longrightarrow> \<exists>a. r = Some a \<and> a < length h"
  by (cases r) (auto simp: map_len_def map_range_def map_at_def split: if_splits)

lemma map_at_old:
  "a < length h \<Longrightarrow>
     map_at (h @ [m]) (Some a) = map_at h (Some a) \<and>
     map_at (map_store (h @ [m]) (length h) k v) (Some a) = map_at h (Some a) \<and>
     map_at (map_delete (h @ [m]) (length h) k) (Some a) = map_at h (Some a)"
  by (simp add: map_at_def map_store_def map_delete_def nth_append)

lemma deriveContext_baggage:
  assumes "deriveContext t w opName rpc s = Some ((c, stags, nt), w1)"
    and "\<not> rs_isSelfRef s" and "rs_hasParent s"
  shows "\<exists>c0 w0. c = fst (copyBaggage (maps w0) c0 (rs_parent s)) \<and>
           w1 = w0\<lparr>maps := snd (copyBaggage (maps w0) c0 (rs_parent s))\<rparr> \<and> maps w0 = maps w"
proof (cases "IsValid (rs_parent s)")
  case True
  from deriveContext_join [OF assms(1,2,3) True] obtain c0 w0 where
    j: "joinTrace t w rpc (rs_ctx s) (rs_parent s) = Some (c0, w0)"
    and c: "c = fst (copyBaggage (maps w0) c0 (rs_parent s))"
    and w1: "w1 = w0\<lparr>maps := snd (copyBaggage (maps w0) c0 (rs_parent s))\<rparr>"
    by blast
  from joinTrace_result [OF j] have "maps w0 = maps w" by simp
  with c w1 show ?thesis by blast
next
  case False
  then have inv: "\<not> rs_hasParent s \<or> \<not> IsValid (rs_parent s)" by simp
  from deriveContext_new [OF assms(1,2) inv] assms(3) obtain c0 w0 where
    n: "startNewTrace t w opName (rs_ctx s) (rs_parent s) (rs_hasParent s) = Some ((c0, stags), w0)"
    and c: "c = fst (copyBaggage (maps w0) c0 (rs_parent s))"
    and w1: "w1 = w0\<lparr>maps := snd (copyBaggage (maps w0) c0 (rs_parent s))\<rparr>"
    by auto
  from startNewTrace_result [OF n] have "maps w0 = maps w" by blast
  with c w1 show ?thesis by blast
qed

section \<open>StartSpan: the tag loop\<close>

lemma randomID_returns:
  assumes "\<exists>k. randomNumber t (rand_pos w + k) \<noteq> 0"
  shows "\<exists>v w'. randomID t w = Some (v, w')"
proof -
  from assms obtain k where k: "randomNumber t (rand_pos w + k) \<noteq> 0" by blast
  show ?thesis
  proof (cases k)
    case 0
    with k have "randomNumber t (rand_pos w) \<noteq> 0" by simp
    then show ?thesis by (simp add: randomID_def randomID_loop_nonzero)
  next
    case (Suc j)
    with k have "randomNumber t (Suc (rand_pos w) + j) \<noteq> 0" by simp
    with randomID_loop_returns
      [of "randomNumber t" "Suc (rand_pos w)" j "randomNumber t (rand_pos w)"]
    obtain r p where
      "randomID_loop (randomNumber t) (Suc (rand_pos w)) (randomNumber t (rand_pos w)) = Some (r, p)"
      by blast
    then show ?thesis by (simp add: randomID_def)
  qed
qed

lemma deriveContext_returns:
  assumes "randomID t w = Some (v, wr)"
  shows "\<exists>c stags nt w1. deriveContext t w opName rpc s = Some ((c, stags, nt), w1)"
proof -
  have "deriveContext t w opName rpc s \<noteq> None"
    using assms
    by (auto simp add: deriveContext_def startNewTrace_def joinTrace_def Let_def split_beta)
  then obtain x where "deriveContext t w opName rpc s = Some x" by blast
  then show ?thesis by (cases x) auto
qed

lemma setFlags_fields:
  "sp_tracer (setFlags s f) = sp_tracer s \<and> operationName (setFlags s f) = operationName s \<and>
   sp_tags (setFlags s f) = sp_tags s \<and>
   traceID (sp_context (setFlags s f)) = traceID (sp_context s) \<and>
   spanID (sp_context (setFlags s f)) = spanID (sp_context s) \<and>
   parentID (sp_context (setFlags s f)) = parentID (sp_context s) \<and>
   baggage (sp_context (setFlags s f)) = baggage (sp_context s) \<and>
   debugID (sp_context (setFlags s f)) = debugID (sp_context s) \<and>
   flags (sp_context (setFlags s f)) = f"
  by (simp add: setFlags_def)

lemma setFlags_same: "setFlags s (flags (sp_context s)) = s"
  by (simp add: setFlags_def)

text \<open>With the back-reference set, setSamplingPriority returns; it touches the flags
  of the span and the call history of the throttler, and nothing else.\<close>

lemma setSamplingPriority_shape:
  assumes "sp_tracer s = Some t"
  shows "\<exists>ok f cs. setSamplingPriority w s v = Inr ((ok, setFlags s f), w\<lparr>throttler_calls := cs\<rparr>)"
proof -
  have shape: "\<And>ok f cs r. r = Inr ((ok, setFlags s f), w\<lparr>throttler_calls := cs\<rparr>) \<Longrightarrow>
      \<exists>ok f cs. r = Inr ((ok, setFlags s f), w\<lparr>throttler_calls := cs\<rparr>)"
    by blast
  have refused: "setSamplingPriority w s v = Inr ((False, s), w) \<Longrightarrow> ?thesis"
    by (rule shape [of _ False "flags (sp_context s)" "throttler_calls w"])
      (simp add: setFlags_same)
  show ?thesis
  proof (cases v)
    case (VUint16 n)
    show ?thesis
    proof (cases "n = 0")
      case True
      show ?thesis
        by (rule shape [of _ True "flags (sp_context s) AND NOT flagSampled" "throttler_calls w"])
          (simp add: setSamplingPriority_def VUint16 True)
    next
      case False
      show ?thesis
      proof (cases "noDebugFlagOnForcedSampling (options t)")
        case True
        show ?thesis
          by (rule shape [of _ True "flags (sp_context s) OR flagSampled" "throttler_calls w"])
            (simp add: setSamplingPriority_def VUint16 False True assms)
      next
        case nd: False
        show ?thesis
        proof (cases "debugThrottler t (throttler_calls w) (operationName s)")
          case True
          show ?thesis
            by (rule shape [of _ True "flags (sp_context s) OR flagDebug OR flagSampled"
                  "throttler_calls w @ [operationName s]"])
              (simp add: setSamplingPriority_def VUint16 False nd True assms isDebugAllowed_def)
        next
          case denied: False
          show ?thesis
            by (rule shape [of _ False "flags (sp_context s)"
                  "throttler_calls w @ [operationName s]"])
              (simp add: setSamplingPriority_def VUint16 False nd denied assms isDebugAllowed_def
                setFlags_same)
        qed
      qed
    qed
  next
    case (VString x)
    then show ?thesis by (intro refused) (simp add: setSamplingPriority_def)
  next
    case (VSpanKindEnum x)
    then show ?thesis by (intro refused) (simp add: setSamplingPriority_def)
  next
    case (VBool x)
    then show ?thesis by (intro refused) (simp add: setSamplingPriority_def)
  next
    case (VInt x)
    then show ?thesis by (intro refused) (simp add: setSamplingPriority_def)
  qed
qed

lemma setSamplingPriority_cong:
  "sp_tracer sa = sp_tracer sb \<Longrightarrow> sp_context sa = sp_context sb \<Longrightarrow>
   operationName sa = operationName sb \<Longrightarrow> throttler_calls wa = throttler_calls wb \<Longrightarrow>
   priorityView (setSamplingPriority wa sa v) = priorityView (setSamplingPriority wb sb v)"
  by (simp add: priorityView_def setSamplingPriority_def setFlags_def isDebugAllowed_def
      split: tag_value.splits option.splits)


lemma tagLoop_shape:
  assumes "sp_tracer sp = Some t"
  shows "\<exists>sp' w'. tagLoop (sp, w) tags = Inr (sp', w') \<and>
     sp_tracer sp' = Some t \<and> operationName sp' = operationName sp \<and>
     traceID (sp_context sp') = traceID (sp_context sp) \<and>
     spanID (sp_context sp') = spanID (sp_context sp) \<and>
     parentID (sp_context sp') = parentID (sp_context sp) \<and>
     baggage (sp_context sp') = baggage (sp_context sp) \<and>
     debugID (sp_context sp') = debugID (sp_context sp) \<and>
     (\<exists>rest. sp_tags sp' = sp_tags sp @ rest) \<and>
     maps w' = maps w \<and> rand_pos w' = rand_pos w \<and> high_pos w' = high_pos w \<and>
     sampler_calls w' = sampler_calls w"
  using assms
proof (induction tags arbitrary: sp w)
  case Nil
  then show ?case by simp
next
  case (Cons kv tags)
  obtain k v where kv: "kv = (k, v)" by (cases kv)
  let ?w1 = "w\<lparr>observed := observed w @ [OnSetTag k v]\<rparr>"
  show ?case
  proof (cases "k = SamplingPriorityKey")
    case True
    from setSamplingPriority_shape [OF Cons.prems, of ?w1 v] obtain ok f cs where
      e: "setSamplingPriority ?w1 sp v = Inr ((ok, setFlags sp f), ?w1\<lparr>throttler_calls := cs\<rparr>)"
      by blast
    note ff = setFlags_fields [of sp f]
    show ?thesis
    proof (cases ok)
      case ok: True
      have tr: "sp_tracer (setTagNoLocking (setFlags sp f) k v) = Some t"
        using Cons.prems ff by (simp add: setTagNoLocking_def)
      from Cons.IH [OF tr, of "?w1\<lparr>throttler_calls := cs\<rparr>"] kv True e ok ff
      show ?thesis by (auto simp: setTagNoLocking_def)
    next
      case no: False
      have tr: "sp_tracer (setFlags sp f) = Some t" using Cons.prems ff by simp
      from Cons.IH [OF tr, of "?w1\<lparr>throttler_calls := cs\<rparr>"] kv True e no ff
      show ?thesis by auto
    qed
  next
    case False
    have tr: "sp_tracer (setTagNoLocking sp k v) = Some t"
      using Cons.prems by (simp add: setTagNoLocking_def)
    from Cons.IH [OF tr, of ?w1] kv False
    show ?thesis by (auto simp: setTagNoLocking_def)
  qed
qed

lemma tagLoop_no_priority:
  assumes "SamplingPriorityKey \<notin> fst ` set tags"
  shows "\<exists>sp' w'. tagLoop (sp, w) tags = Inr (sp', w') \<and>
     sp_context sp' = sp_context sp \<and> throttler_calls w' = throttler_calls w \<and>
     (\<exists>rest. sp_tags sp' = sp_tags sp @ rest \<and> SamplingPriorityKey \<notin> key ` set rest)"
  using assms
proof (induction tags arbitrary: sp w)
  case Nil
  then show ?case by simp
next
  case (Cons kv tags)
  obtain k v where kv: "kv = (k, v)" by (cases kv)
  from Cons.prems kv have k: "k \<noteq> SamplingPriorityKey"
    and rest: "SamplingPriorityKey \<notin> fst ` set tags" by auto
  from Cons.IH [OF rest, of "setTagNoLocking sp k v" "w\<lparr>observed := observed w @ [OnSetTag k v]\<rparr>"]
    k kv
  show ?case by (auto simp: setTagNoLocking_def)
qed


lemma tagLoop_priority:
  assumes "sp_tracer sp = Some t" and "distinct (map fst tags)"
    and "map_of tags SamplingPriorityKey = Some v"
  shows "\<exists>sp' w' ok. tagLoop (sp, w) tags = Inr (sp', w') \<and>
     priorityView (setSamplingPriority w sp v) = Some (ok, sp_context sp', throttler_calls w') \<and>
     (\<exists>rest. sp_tags sp' = sp_tags sp @ rest \<and>
        ((\<lparr>key = SamplingPriorityKey, val = v\<rparr> \<in> set rest) = ok))"
  using assms
proof (induction tags arbitrary: sp w)
  case Nil
  then show ?case by simp
next
  case (Cons kv tags)
  obtain k v' where kv: "kv = (k, v')" by (cases kv)
  let ?w1 = "w\<lparr>observed := observed w @ [OnSetTag k v']\<rparr>"
  from Cons.prems kv have d: "distinct (map fst tags)" and kn: "k \<notin> fst ` set tags" by auto
  show ?case
  proof (cases "k = SamplingPriorityKey")
    case True
    with Cons.prems kv have v: "v' = v" by simp
    from kn True have np: "SamplingPriorityKey \<notin> fst ` set tags" by simp
    from setSamplingPriority_shape [OF Cons.prems(1), of ?w1 v] obtain ok f cs where
      e: "setSamplingPriority ?w1 sp v = Inr ((ok, setFlags sp f), ?w1\<lparr>throttler_calls := cs\<rparr>)"
      by blast
    have "priorityView (setSamplingPriority w sp v) = priorityView (setSamplingPriority ?w1 sp v)"
      by (rule setSamplingPriority_cong) simp_all
    with e have pv: "priorityView (setSamplingPriority w sp v) =
        Some (ok, sp_context (setFlags sp f), cs)"
      by (simp add: priorityView_def)
    let ?sp2 = "if ok then setTagNoLocking (setFlags sp f) k v else setFlags sp f"
    have step: "tagLoop (sp, w) (kv # tags) = tagLoop (?sp2, ?w1\<lparr>throttler_calls := cs\<rparr>) tags"
      using kv True e v by simp
    from tagLoop_no_priority [OF np, of ?sp2 "?w1\<lparr>throttler_calls := cs\<rparr>"]
    obtain sp' w' rest where
      r: "tagLoop (?sp2, ?w1\<lparr>throttler_calls := cs\<rparr>) tags = Inr (sp', w')"
      and c: "sp_context sp' = sp_context ?sp2" and tc: "throttler_calls w' = cs"
      and tg: "sp_tags sp' = sp_tags ?sp2 @ rest"
      and nk: "SamplingPriorityKey \<notin> key ` set rest"
      by auto
    from c have c': "sp_context sp' = sp_context (setFlags sp f)"
      by (simp add: setTagNoLocking_def)
    from nk have notin: "\<lparr>key = SamplingPriorityKey, val = v\<rparr> \<notin> set rest" by force
    have tg': "sp_tags sp' = sp_tags sp @ ((if ok then [\<lparr>key = SamplingPriorityKey, val = v\<rparr>] else []) @ rest)"
      using tg True by (simp add: setTagNoLocking_def setFlags_def)
    have mem: "(\<lparr>key = SamplingPriorityKey, val = v\<rparr>
                 \<in> set ((if ok then [\<lparr>key = SamplingPriorityKey, val = v\<rparr>] else []) @ rest)) = ok"
      using notin by simp
    from step r have r': "tagLoop (sp, w) (kv # tags) = Inr (sp', w')" by simp
    from pv c' tc have pv': "priorityView (setSamplingPriority w sp v) =
        Some (ok, sp_context sp', throttler_calls w')" by simp
    from r' pv' tg' mem show ?thesis by blast
  next
    case False
    with Cons.prems kv have m: "map_of tags SamplingPriorityKey = Some v" by simp
    let ?sp1 = "setTagNoLocking sp k v'"
    have tr: "sp_tracer ?sp1 = Some t" using Cons.prems(1) by (simp add: setTagNoLocking_def)
    have step: "tagLoop (sp, w) (kv # tags) = tagLoop (?sp1, ?w1) tags"
      using kv False by simp
    from Cons.IH [OF tr d m, of ?w1] obtain sp' w' ok rest where
      r: "tagLoop (?sp1, ?w1) tags = Inr (sp', w')"
      and pv: "priorityView (setSamplingPriority ?w1 ?sp1 v) =
                 Some (ok, sp_context sp', throttler_calls w')"
      and tg: "sp_tags sp' = sp_tags ?sp1 @ rest"
      and mem: "(\<lparr>key = SamplingPriorityKey, val = v\<rparr> \<in> set rest) = ok"
      by blast
    have "priorityView (setSamplingPriority w sp v) = priorityView (setSamplingPriority ?w1 ?sp1 v)"
      by (rule setSamplingPriority_cong) (simp_all add: setTagNoLocking_def)
    with pv have pv': "priorityView (setSamplingPriority w sp v) =
                 Some (ok, sp_context sp', throttler_calls w')" by simp
    have tg': "sp_tags sp' = sp_tags sp @ (\<lparr>key = k, val = v'\<rparr> # rest)"
      using tg by (simp add: setTagNoLocking_def)
    have mem': "(\<lparr>key = SamplingPriorityKey, val = v\<rparr> \<in> set (\<lparr>key = k, val = v'\<rparr> # rest)) = ok"
      using mem False by auto
    from step r have r': "tagLoop (sp, w) (kv # tags) = Inr (sp', w')" by simp
    from r' pv' tg' mem' show ?thesis by blast
  qed
qed


section \<open>StartSpan: the span\<close>

lemma emitStartMetrics_frame:
  "maps (emitStartMetrics w sp nt) = maps w \<and>
   rand_pos (emitStartMetrics w sp nt) = rand_pos w \<and>
   high_pos (emitStartMetrics w sp nt) = high_pos w \<and>
   sampler_calls (emitStartMetrics w sp nt) = sampler_calls w \<and>
   throttler_calls (emitStartMetrics w sp nt) = throttler_calls w"
  by (simp add: emitStartMetrics_def inc_def Let_def)

lemma preparedSpan_fields:
  "sp_tracer (preparedSpan t c opName start stags rpc refs) = Some t \<and>
   sp_context (preparedSpan t c opName start stags rpc refs) = c \<and>
   operationName (preparedSpan t c opName start stags rpc refs) = opName \<and>
   sp_tags (preparedSpan t c opName start stags rpc refs) = stags"
  by (simp add: preparedSpan_def)

lemma startSpanInternal_eq:
  "startSpanInternal t w (newSpan\<lparr>sp_context := c\<rparr>) opName start stags tags nt rpc refs =
     (case (if tags \<noteq> [] \<or> stags \<noteq> []
            then tagLoop (preparedSpan t c opName start stags rpc refs, w) tags
            else Inr (preparedSpan t c opName start stags rpc refs, w)) of
        Inl e \<Rightarrow> Inl e
      | Inr (sp2, w2) \<Rightarrow> Inr (sp2, emitStartMetrics w2 sp2 nt))"
  by (simp add: startSpanInternal_def preparedSpan_def newSpan_def Let_def)

lemma startSpanInternal_loop:
  assumes "tagLoop (preparedSpan t c opName start stags rpc refs, w) tags = Inr (sp, w2)"
  shows "startSpanInternal t w (newSpan\<lparr>sp_context := c\<rparr>) opName start stags tags nt rpc refs
           = Inr (sp, emitStartMetrics w2 sp nt)"
proof (cases "tags \<noteq> [] \<or> stags \<noteq> []")
  case True
  with assms show ?thesis by (simp add: startSpanInternal_eq)
next
  case False
  with assms show ?thesis by (auto simp: startSpanInternal_eq)
qed

lemma startSpanInternal_result:
  "\<exists>sp w'. startSpanInternal t w (newSpan\<lparr>sp_context := c\<rparr>) opName start stags tags nt rpc refs
       = Inr (sp, w') \<and>
     traceID (sp_context sp) = traceID c \<and> spanID (sp_context sp) = spanID c \<and>
     parentID (sp_context sp) = parentID c \<and> baggage (sp_context sp) = baggage c \<and>
     debugID (sp_context sp) = debugID c \<and>
     (\<exists>rest. sp_tags sp = stags @ rest) \<and>
     maps w' = maps w \<and> rand_pos w' = rand_pos w \<and> high_pos w' = high_pos w \<and>
     sampler_calls w' = sampler_calls w"
proof -
  let ?p = "preparedSpan t c opName start stags rpc refs"
  note pf = preparedSpan_fields [of t c opName start stags rpc refs]
  from pf have tr: "sp_tracer ?p = Some t" by simp
  from tagLoop_shape [OF tr, of w tags] obtain sp w2 where
    l: "tagLoop (?p, w) tags = Inr (sp, w2)"
    and f: "traceID (sp_context sp) = traceID (sp_context ?p)"
      "spanID (sp_context sp) = spanID (sp_context ?p)"
      "parentID (sp_context sp) = parentID (sp_context ?p)"
      "baggage (sp_context sp) = baggage (sp_context ?p)"
      "debugID (sp_context sp) = debugID (sp_context ?p)"
      "\<exists>rest. sp_tags sp = sp_tags ?p @ rest"
      "maps w2 = maps w" "rand_pos w2 = rand_pos w" "high_pos w2 = high_pos w"
      "sampler_calls w2 = sampler_calls w"
    by blast
  from startSpanInternal_loop [OF l] f pf emitStartMetrics_frame [of w2 sp nt]
  show ?thesis by simp
qed

lemma startSpanInternal_no_priority:
  assumes "SamplingPriorityKey \<notin> fst ` set tags"
  shows "\<exists>sp w'. startSpanInternal t w (newSpan\<lparr>sp_context := c\<rparr>) opName start stags tags nt rpc refs
       = Inr (sp, w') \<and> sp_context sp = c \<and> throttler_calls w' = throttler_calls w"
proof -
  let ?p = "preparedSpan t c opName start stags rpc refs"
  note pf = preparedSpan_fields [of t c opName start stags rpc refs]
  from tagLoop_no_priority [OF assms, of ?p w] obtain sp w2 where
    l: "tagLoop (?p, w) tags = Inr (sp, w2)"
    and f: "sp_context sp = sp_context ?p" "throttler_calls w2 = throttler_calls w"
    by blast
  from startSpanInternal_loop [OF l] f pf emitStartMetrics_frame [of w2 sp nt]
  show ?thesis by simp
qed

lemma startSpanInternal_priority:
  assumes "distinct (map fst tags)" and "map_of tags SamplingPriorityKey = Some v"
  shows "\<exists>sp w' ok rest.
     startSpanInternal t w (newSpan\<lparr>sp_context := c\<rparr>) opName start stags tags nt rpc refs
       = Inr (sp, w') \<and>
     priorityView (setSamplingPriority w (preparedSpan t c opName start stags rpc refs) v)
       = Some (ok, sp_context sp, throttler_calls w') \<and>
     sp_tags sp = stags @ rest \<and>
     ((\<lparr>key = SamplingPriorityKey, val = v\<rparr> \<in> set rest) = ok)"
proof -
  let ?p = "preparedSpan t c opName start stags rpc refs"
  note pf = preparedSpan_fields [of t c opName start stags rpc refs]
  from pf have tr: "sp_tracer ?p = Some t" by simp
  from tagLoop_priority [OF tr assms, of w] obtain sp w2 ok rest where
    l: "tagLoop (?p, w) tags = Inr (sp, w2)"
    and pv: "priorityView (setSamplingPriority w ?p v) = Some (ok, sp_context sp, throttler_calls w2)"
    and tg: "sp_tags sp = sp_tags ?p @ rest"
    and mem: "(\<lparr>key = SamplingPriorityKey, val = v\<rparr> \<in> set rest) = ok"
    by blast
  from pv emitStartMetrics_frame [of w2 sp nt]
  have pv': "priorityView (setSamplingPriority w ?p v)
      = Some (ok, sp_context sp, throttler_calls (emitStartMetrics w2 sp nt))" by simp
  from tg pf have tg': "sp_tags sp = stags @ rest" by simp
  from startSpanInternal_loop [OF l, of nt] pv' tg' mem show ?thesis by blast
qed

section \<open>StartSpan: the call\<close>

lemma startSpanWithOptions_returns:
  assumes "\<exists>k. randomNumber t (rand_pos w + k) \<noteq> 0"
  shows "\<exists>c stags nt w1.
    deriveContext t (w\<lparr>logged := logged w @ rs_logged (resolveReferences (maps w) (References opts))\<rparr>)
        opName (isRPCServer (Tags opts)) (resolveReferences (maps w) (References opts))
       = Some ((c, stags, nt), w1) \<and>
    startSpanWithOptions t w opName opts =
      Some (startSpanInternal t (w1\<lparr>observed := observed w1 @ [OnStartSpan opName]\<rparr>)
            (newSpan\<lparr>sp_context := c\<rparr>) opName
            (if StartTime opts = 0 then timeNow t else StartTime opts) stags (Tags opts) nt
            (isRPCServer (Tags opts)) (rs_references (resolveReferences (maps w) (References opts))))"
proof -
  let ?w0 = "w\<lparr>logged := logged w @ rs_logged (resolveReferences (maps w) (References opts))\<rparr>"
  from assms have "\<exists>k. randomNumber t (rand_pos ?w0 + k) \<noteq> 0" by simp
  from randomID_returns [OF this] obtain v wr where "randomID t ?w0 = Some (v, wr)" by blast
  from deriveContext_returns [OF this] obtain c stags nt w1 where
    d: "deriveContext t ?w0 opName (isRPCServer (Tags opts))
          (resolveReferences (maps w) (References opts)) = Some ((c, stags, nt), w1)"
    by blast
  then have "startSpanWithOptions t w opName opts =
      Some (startSpanInternal t (w1\<lparr>observed := observed w1 @ [OnStartSpan opName]\<rparr>)
            (newSpan\<lparr>sp_context := c\<rparr>) opName
            (if StartTime opts = 0 then timeNow t else StartTime opts) stags (Tags opts) nt
            (isRPCServer (Tags opts)) (rs_references (resolveReferences (maps w) (References opts))))"
    by (simp add: startSpanWithOptions_def Let_def)
  with d show ?thesis by blast
qed

text \<open>
  Under the hypothesis on the random source the call returns a span; the span and the
  world it leaves, in terms of the context derived from the references.
\<close>

lemma startSpanWithOptions_result:
  assumes "\<exists>k. randomNumber t (rand_pos w + k) \<noteq> 0"
  shows "\<exists>c stags nt w1 sp w'.
    deriveContext t (w\<lparr>logged := logged w @ rs_logged (resolveReferences (maps w) (References opts))\<rparr>)
        opName (isRPCServer (Tags opts)) (resolveReferences (maps w) (References opts))
       = Some ((c, stags, nt), w1) \<and>
    startSpanWithOptions t w opName opts = Some (Inr (sp, w')) \<and>
    traceID (sp_context sp) = traceID c \<and> spanID (sp_context sp) = spanID c \<and>
    parentID (sp_context sp) = parentID c \<and> baggage (sp_context sp) = baggage c \<and>
    debugID (sp_context sp) = debugID c \<and>
    (SamplingPriorityKey \<notin> fst ` set (Tags opts) \<longrightarrow>
       sp_context sp = c \<and> throttler_calls w' = throttler_calls w1) \<and>
    (\<exists>rest. sp_tags sp = stags @ rest) \<and>
    maps w' = maps w1 \<and> rand_pos w' = rand_pos w1 \<and> high_pos w' = high_pos w1 \<and>
    sampler_calls w' = sampler_calls w1"
proof -
  let ?s = "resolveReferences (maps w) (References opts)"
  from startSpanWithOptions_returns [OF assms, of opts opName] obtain c stags nt w1 where
    d: "deriveContext t (w\<lparr>logged := logged w @ rs_logged ?s\<rparr>) opName (isRPCServer (Tags opts)) ?s
          = Some ((c, stags, nt), w1)"
    and e: "startSpanWithOptions t w opName opts =
      Some (startSpanInternal t (w1\<lparr>observed := observed w1 @ [OnStartSpan opName]\<rparr>)
            (newSpan\<lparr>sp_context := c\<rparr>) opName
            (if StartTime opts = 0 then timeNow t else StartTime opts) stags (Tags opts) nt
            (isRPCServer (Tags opts)) (rs_references ?s))"
    by blast
  let ?w2 = "w1\<lparr>observed := observed w1 @ [OnStartSpan opName]\<rparr>"
  let ?r = "startSpanInternal t ?w2 (newSpan\<lparr>sp_context := c\<rparr>) opName
            (if StartTime opts = 0 then timeNow t else StartTime opts) stags (Tags opts) nt
            (isRPCServer (Tags opts)) (rs_references ?s)"
  from startSpanInternal_result [of t ?w2 c opName _ stags "Tags opts" nt _ "rs_references ?s"]
  obtain sp w' where r: "?r = Inr (sp, w')"
    and ids: "traceID (sp_context sp) = traceID c" "spanID (sp_context sp) = spanID c"
      "parentID (sp_context sp) = parentID c" "baggage (sp_context sp) = baggage c"
      "debugID (sp_context sp) = debugID c"
    and tg: "\<exists>rest. sp_tags sp = stags @ rest"
    and fr: "maps w' = maps ?w2" "rand_pos w' = rand_pos ?w2" "high_pos w' = high_pos ?w2"
      "sampler_calls w' = sampler_calls ?w2"
    by blast
  have np: "SamplingPriorityKey \<notin> fst ` set (Tags opts) \<longrightarrow>
       sp_context sp = c \<and> throttler_calls w' = throttler_calls w1"
  proof
    assume "SamplingPriorityKey \<notin> fst ` set (Tags opts)"
    from startSpanInternal_no_priority [OF this, of t ?w2 c opName _ stags nt _ "rs_references ?s"]
    obtain sp2 w2 where "?r = Inr (sp2, w2)" "sp_context sp2 = c"
      "throttler_calls w2 = throttler_calls ?w2" by blast
    with r show "sp_context sp = c \<and> throttler_calls w' = throttler_calls w1" by simp
  qed
  from e r have "startSpanWithOptions t w opName opts = Some (Inr (sp, w'))" by simp
  with d ids np tg fr show ?thesis by simp
qed


section \<open>StartSpan: properties\<close>

lemmas start_defs = startSpanWithOptions_def resolveReferences_def refStep_def ref_init_def
  deriveContext_def startNewTrace_def joinTrace_def copyBaggage_def randomID_def
  randomID_loop_zero randomID_loop_nonzero callSampler_def isDebugAllowed_def
  callHighTraceIDGenerator_def isRPCServer_def startSpanInternal_def setSamplingPriority_def
  setFlags_def setTagNoLocking_def emitStartMetrics_def inc_def newSpan_def zeroSpanContext_def
  zeroTraceID_def map_make_def map_store_def IsSampled_def IsDebug_def flagSampled_def
  flagDebug_def SamplingPriorityKey_def SpanKindKey_def JaegerDebugHeader_def spanOf_def
  exTracer_def exDenyingTracer_def exRetainingTracer_def exOptions_def exMetrics_def Let_def

text \<open>
  C2, as stated, fails. The span ID of the new span is whatever randomID draws; nothing
  compares it with the parent's span ID. Here the first non-zero draw is 7, the span ID of
  the parent. And the flags differ from the parent's when the caller's tags carry a
  sampling priority: the parent is sampled, priority 0 clears the bit.
\<close>

theorem fresh_spanID_counterexample:
  "resolvedParent (maps exWorld) [ref ChildOfRef ctxA] = Some ctxA \<and> IsValid ctxA \<and>
   \<not> selfReferenced (maps exWorld) [ref ChildOfRef ctxA] \<and>
   \<not> isRPCServer [] \<and>
   map_option (\<lambda>sp. spanID (sp_context sp))
     (spanOf (startSpanWithOptions exTracer exWorld ''op''
        \<lparr>References = [ref ChildOfRef ctxA], StartTime = 0, Tags = []\<rparr>))
     = Some (spanID ctxA) \<and>
   map_option (\<lambda>sp. flags (sp_context sp))
     (spanOf (startSpanWithOptions exTracer exWorld ''op''
        \<lparr>References = [ref ChildOfRef ctxA], StartTime = 0,
         Tags = [(SamplingPriorityKey, VUint16 0)]\<rparr>))
     = Some 0 \<and>
   flags ctxA = 1"
  by (simp add: resolvedParent_def selfReferenced_def start_defs ex_defs)

text \<open>
  C2, amended. For every StartSpan call that is not a self-reference and whose resolved
  parent is valid, when the random source yields a non-zero value at some later draw: the
  call returns a span; the trace ID of the span is the parent's; its flags are the
  parent's unless the caller's tags carry a sampling-priority tag; in Zipkin-shared-span
  mode with the RPC-server tag, span ID and parent ID are the parent's and no random
  number is drawn; otherwise the parent ID is the parent's span ID and the span ID is the
  value randomID draws, which is not 0 (and which nothing keeps apart from the parent's
  span ID).
\<close>

theorem join_parent_trace:
  assumes "\<exists>k. randomNumber t (rand_pos w + k) \<noteq> 0"
    and "\<not> selfReferenced (maps w) (References opts)"
    and "resolvedParent (maps w) (References opts) = Some P"
    and "IsValid P"
  shows "\<exists>sp w'. startSpanWithOptions t w opName opts = Some (Inr (sp, w')) \<and>
         traceID (sp_context sp) = traceID P \<and>
         (SamplingPriorityKey \<notin> fst ` set (Tags opts) \<longrightarrow> flags (sp_context sp) = flags P) \<and>
         (if isRPCServer (Tags opts) \<and> zipkinSharedRPCSpan (options t)
          then spanID (sp_context sp) = spanID P \<and> parentID (sp_context sp) = parentID P \<and>
               rand_pos w' = rand_pos w
          else parentID (sp_context sp) = spanID P \<and> spanID (sp_context sp) \<noteq> 0 \<and>
               (\<exists>wr. randomID t w = Some (spanID (sp_context sp), wr) \<and> rand_pos w' = rand_pos wr))"
proof -
  let ?s = "resolveReferences (maps w) (References opts)"
  let ?w0 = "w\<lparr>logged := logged w @ rs_logged ?s\<rparr>"
  let ?rpc = "isRPCServer (Tags opts)"
  from not_selfReferenced_ctx [OF assms(2)] have ns: "\<not> rs_isSelfRef ?s" by simp
  from resolvedParent_Some [OF assms(3)] have hp: "rs_hasParent ?s" and p: "rs_parent ?s = P"
    by simp_all
  from assms(4) p have v: "IsValid (rs_parent ?s)" by simp
  from startSpanWithOptions_result [OF assms(1), of opts opName] obtain c stags nt w1 sp w' where
    d: "deriveContext t ?w0 opName ?rpc ?s = Some ((c, stags, nt), w1)"
    and ret: "startSpanWithOptions t w opName opts = Some (Inr (sp, w'))"
    and ids: "traceID (sp_context sp) = traceID c" "spanID (sp_context sp) = spanID c"
      "parentID (sp_context sp) = parentID c"
    and np: "SamplingPriorityKey \<notin> fst ` set (Tags opts) \<longrightarrow>
               sp_context sp = c \<and> throttler_calls w' = throttler_calls w1"
    and rp: "rand_pos w' = rand_pos w1"
    by blast
  from deriveContext_join [OF d ns hp v] obtain c0 w0 where
    j: "joinTrace t ?w0 ?rpc (rs_ctx ?s) (rs_parent ?s) = Some (c0, w0)"
    and c: "c = fst (copyBaggage (maps w0) c0 (rs_parent ?s))"
    and w1: "w1 = w0\<lparr>maps := snd (copyBaggage (maps w0) c0 (rs_parent ?s))\<rparr>"
    by blast
  note cb = copyBaggage_context [of "maps w0" c0 "rs_parent ?s"]
  note jr = joinTrace_result [OF j]
  have rp1: "rand_pos w1 = rand_pos w0" unfolding w1 by simp
  have t: "traceID (sp_context sp) = traceID P" using ids c cb jr p by simp
  have f: "SamplingPriorityKey \<notin> fst ` set (Tags opts) \<longrightarrow> flags (sp_context sp) = flags P"
    using np c cb jr p by auto
  have "if ?rpc \<and> zipkinSharedRPCSpan (options t)
          then spanID (sp_context sp) = spanID P \<and> parentID (sp_context sp) = parentID P \<and>
               rand_pos w' = rand_pos w
          else parentID (sp_context sp) = spanID P \<and> spanID (sp_context sp) \<noteq> 0 \<and>
               (\<exists>wr. randomID t w = Some (spanID (sp_context sp), wr) \<and> rand_pos w' = rand_pos wr)"
  proof (cases "?rpc \<and> zipkinSharedRPCSpan (options t)")
    case True
    with jr p have "spanID c0 = spanID P" "parentID c0 = parentID P" "w0 = ?w0" by simp_all
    with ids c cb rp rp1 True show ?thesis by simp
  next
    case False
    with jr p have a: "parentID c0 = spanID P" "spanID c0 \<noteq> 0"
      and r: "randomID t ?w0 = Some (spanID c0, w0)" by simp_all
    from randomID_logged [OF r] obtain wr where
      "randomID t w = Some (spanID c0, wr)" "rand_pos wr = rand_pos w0" by blast
    with ids c cb rp rp1 a have
      "parentID (sp_context sp) = spanID P" "spanID (sp_context sp) \<noteq> 0"
      "\<exists>wr. randomID t w = Some (spanID (sp_context sp), wr) \<and> rand_pos w' = rand_pos wr"
      by auto
    with False show ?thesis by auto
  qed
  with ret t f show ?thesis by blast
qed

theorem join_parent_trace_witness:
  "(\<exists>k. randomNumber exTracer (rand_pos exWorld + k) \<noteq> 0) \<and>
   \<not> selfReferenced (maps exWorld) [ref FollowsFromRef ctxB] \<and>
   resolvedParent (maps exWorld) [ref FollowsFromRef ctxB] = Some ctxB \<and>
   IsValid ctxB \<and>
   (\<exists>sp w'. startSpanWithOptions exTracer exWorld ''op''
        \<lparr>References = [ref FollowsFromRef ctxB], StartTime = 5, Tags = [(''a'', VBool True)]\<rparr>
      = Some (Inr (sp, w')) \<and>
      traceID (sp_context sp) = traceID ctxB \<and> flags (sp_context sp) = flags ctxB \<and>
      parentID (sp_context sp) = spanID ctxB \<and> spanID (sp_context sp) \<noteq> 0)"
proof -
  let ?opts = "\<lparr>References = [ref FollowsFromRef ctxB], StartTime = 5, Tags = [(''a'', VBool True)]\<rparr>"
  have h0: "\<exists>k. randomNumber exTracer (rand_pos exWorld + k) \<noteq> 0"
    by (rule exI [of _ 2]) (simp add: exTracer_def exWorld_def)
  have h1: "\<not> selfReferenced (maps exWorld) (References ?opts)"
    by (simp add: selfReferenced_def start_defs ex_defs)
  have h2: "resolvedParent (maps exWorld) (References ?opts) = Some ctxB"
    by (simp add: resolvedParent_def start_defs ex_defs)
  have h3: "IsValid ctxB" by (simp add: ex_defs)
  have h4: "SamplingPriorityKey \<notin> fst ` set (Tags ?opts)" "\<not> isRPCServer (Tags ?opts)"
    by (simp_all add: SamplingPriorityKey_def isRPCServer_def SpanKindKey_def)
  from join_parent_trace [OF h0 h1 h2 h3, of "''op''"] h4 h0 h1 h2 h3 show ?thesis by auto
qed


text \<open>
  C3. For every StartSpan call that is not a self-reference and has no parent, or a
  parent that is not valid, when the random source yields a non-zero value at some later
  draw: the call builds a new context and returns a span. In the new context the low word
  of the trace ID is the non-zero value randomID draws, the high word is drawn from the
  high trace ID generator in 128-bit mode and is 0 otherwise (the generator is then not
  called), the span ID is the low word and the parent ID is 0. On the debug-forced path
  the flags are exactly sampled and debug, the one sampler tag carries the debug id of the
  parent, and the sampler is not called. Otherwise the sampler is called once with the new
  trace ID; the flags are exactly the sampled bit when it says so and 0 when not, and the
  sampler tags are the sampler's when it says so and none when not. The span has the
  identifiers of the new context, its tags begin with the sampler tags, and its flags are
  those of the new context unless the caller's tags carry a sampling priority, which
  changes them afterwards.
\<close>

theorem new_trace:
  assumes "\<exists>k. randomNumber t (rand_pos w + k) \<noteq> 0"
    and "\<not> selfReferenced (maps w) (References opts)"
    and "case resolvedParent (maps w) (References opts) of None \<Rightarrow> True | Some P \<Rightarrow> \<not> IsValid P"
  shows "\<exists>c stags w1 sp w'.
     derived t w opName opts = Some ((c, stags, True), w1) \<and>
     startSpanWithOptions t w opName opts = Some (Inr (sp, w')) \<and>
     traceID (sp_context sp) = traceID c \<and> spanID (sp_context sp) = spanID c \<and>
     parentID (sp_context sp) = parentID c \<and>
     (SamplingPriorityKey \<notin> fst ` set (Tags opts) \<longrightarrow> flags (sp_context sp) = flags c) \<and>
     (\<exists>rest. sp_tags sp = stags @ rest) \<and>
     (\<exists>low wr. randomID t w = Some (low, wr) \<and> low \<noteq> 0 \<and>
        Low (traceID c) = low \<and> spanID c = low \<and> parentID c = 0 \<and>
        High (traceID c) =
          (if gen128Bit (options t) then fst (callHighTraceIDGenerator t wr) else 0) \<and>
        rand_pos w' = rand_pos (afterIDs t wr) \<and> high_pos w' = high_pos (afterIDs t wr)) \<and>
     (if debugForced t w opName (resolvedParent (maps w) (References opts))
      then flags c = flagSampled OR flagDebug \<and>
           (\<exists>P. resolvedParent (maps w) (References opts) = Some P \<and>
              stags = [\<lparr>key = JaegerDebugHeader, val = VString (debugID P)\<rparr>]) \<and>
           sampler_calls w' = sampler_calls w
      else sampler_calls w' = sampler_calls w @ [(traceID c, opName)] \<and>
           flags c = (if fst (sampler t (sampler_calls w) (traceID c) opName)
                      then flagSampled else 0) \<and>
           stags = (if fst (sampler t (sampler_calls w) (traceID c) opName)
                    then snd (sampler t (sampler_calls w) (traceID c) opName) else []))"
proof -
  let ?s = "resolveReferences (maps w) (References opts)"
  let ?l = "logged w @ rs_logged ?s"
  let ?w0 = "w\<lparr>logged := ?l\<rparr>"
  let ?rpc = "isRPCServer (Tags opts)"
  let ?P = "rs_parent ?s"
  let ?hp = "rs_hasParent ?s"
  let ?pr = "resolvedParent (maps w) (References opts)"
  from not_selfReferenced_ctx [OF assms(2)]
  have ns: "\<not> rs_isSelfRef ?s" and z: "rs_ctx ?s = zeroSpanContext" by simp_all
  have pr: "?pr = (if ?hp then Some ?P else None)" by (rule resolvedParent_eq)
  from assms(3) pr have inv: "\<not> ?hp \<or> \<not> IsValid ?P" by (simp split: if_splits)
  have df: "debugForced t w opName ?pr =
              (?hp \<and> isDebugIDContainerOnly ?P \<and> debugThrottler t (throttler_calls w) opName)"
    by (simp add: debugForced_def pr)
  from startSpanWithOptions_result [OF assms(1), of opts opName] obtain c stags nt w1 sp w' where
    d: "deriveContext t ?w0 opName ?rpc ?s = Some ((c, stags, nt), w1)"
    and ret: "startSpanWithOptions t w opName opts = Some (Inr (sp, w'))"
    and ids: "traceID (sp_context sp) = traceID c" "spanID (sp_context sp) = spanID c"
      "parentID (sp_context sp) = parentID c"
    and np: "SamplingPriorityKey \<notin> fst ` set (Tags opts) \<longrightarrow>
               sp_context sp = c \<and> throttler_calls w' = throttler_calls w1"
    and tg: "\<exists>rest. sp_tags sp = stags @ rest"
    and wd: "rand_pos w' = rand_pos w1" "high_pos w' = high_pos w1"
      "sampler_calls w' = sampler_calls w1"
    by blast
  from deriveContext_new [OF d ns inv] obtain c0 w0 where
    n: "startNewTrace t ?w0 opName (rs_ctx ?s) ?P ?hp = Some ((c0, stags), w0)"
    and nt: "nt"
    and c: "c = (if ?hp then fst (copyBaggage (maps w0) c0 ?P) else c0)"
    and w1: "w1 = (if ?hp then w0\<lparr>maps := snd (copyBaggage (maps w0) c0 ?P)\<rparr> else w0)"
    by blast
  from d nt have dv: "derived t w opName opts = Some ((c, stags, True), w1)"
    by (simp add: derived_def Let_def)
  note cb = copyBaggage_context [of "maps w0" c0 ?P]
  from c cb have cc: "traceID c = traceID c0" "spanID c = spanID c0" "parentID c = parentID c0"
    "flags c = flags c0" by simp_all
  from w1 have ww: "rand_pos w1 = rand_pos w0" "high_pos w1 = high_pos w0"
    "sampler_calls w1 = sampler_calls w0" by simp_all
  from startNewTrace_result [OF n] obtain low wr0 where
    r0: "randomID t ?w0 = Some (low, wr0)" and low: "low \<noteq> 0"
    and i0: "Low (traceID c0) = low" "spanID c0 = low" "parentID c0 = 0"
      "High (traceID c0) = (if gen128Bit (options t) then fst (callHighTraceIDGenerator t wr0)
                            else High (traceID (rs_ctx ?s)))"
    and p0: "rand_pos w0 = rand_pos (afterIDs t wr0)" "high_pos w0 = high_pos (afterIDs t wr0)"
    and br: "if ?hp \<and> isDebugIDContainerOnly ?P \<and> debugThrottler t (throttler_calls ?w0) opName
      then flags c0 = flagSampled OR flagDebug \<and>
           stags = [\<lparr>key = JaegerDebugHeader, val = VString (debugID ?P)\<rparr>] \<and>
           sampler_calls w0 = sampler_calls ?w0
      else sampler_calls w0 = sampler_calls ?w0 @ [(traceID c0, opName)] \<and>
           flags c0 = (if fst (sampler t (sampler_calls ?w0) (traceID c0) opName) then flagSampled else 0) \<and>
           stags = (if fst (sampler t (sampler_calls ?w0) (traceID c0) opName)
                    then snd (sampler t (sampler_calls ?w0) (traceID c0) opName) else [])"
    by blast
  from randomID_logged_eq [OF r0] obtain wr where
    r: "randomID t w = Some (low, wr)" and wr0: "wr0 = wr\<lparr>logged := ?l\<rparr>" by blast
  have hi: "High (traceID c0) = (if gen128Bit (options t) then fst (callHighTraceIDGenerator t wr) else 0)"
    using i0(4) z by (simp add: wr0 callHighTraceIDGenerator_logged zeroSpanContext_def zeroTraceID_def)
  have pos: "rand_pos w0 = rand_pos (afterIDs t wr)" "high_pos w0 = high_pos (afterIDs t wr)"
    using p0 by (simp_all add: wr0 afterIDs_logged)
  have part1: "\<exists>low wr. randomID t w = Some (low, wr) \<and> low \<noteq> 0 \<and>
        Low (traceID c) = low \<and> spanID c = low \<and> parentID c = 0 \<and>
        High (traceID c) =
          (if gen128Bit (options t) then fst (callHighTraceIDGenerator t wr) else 0) \<and>
        rand_pos w' = rand_pos (afterIDs t wr) \<and> high_pos w' = high_pos (afterIDs t wr)"
    using r low cc i0(1-3) hi wd ww pos by auto
  have fl: "SamplingPriorityKey \<notin> fst ` set (Tags opts) \<longrightarrow> flags (sp_context sp) = flags c"
    using np by auto
  have sc: "sampler_calls w' = sampler_calls w0" using wd ww by simp
  have part2: "if debugForced t w opName ?pr
      then flags c = flagSampled OR flagDebug \<and>
           (\<exists>P. ?pr = Some P \<and>
              stags = [\<lparr>key = JaegerDebugHeader, val = VString (debugID P)\<rparr>]) \<and>
           sampler_calls w' = sampler_calls w
      else sampler_calls w' = sampler_calls w @ [(traceID c, opName)] \<and>
           flags c = (if fst (sampler t (sampler_calls w) (traceID c) opName)
                      then flagSampled else 0) \<and>
           stags = (if fst (sampler t (sampler_calls w) (traceID c) opName)
                    then snd (sampler t (sampler_calls w) (traceID c) opName) else [])"
  proof (cases "debugForced t w opName ?pr")
    case True
    with df have f: "?hp" "isDebugIDContainerOnly ?P" "debugThrottler t (throttler_calls w) opName"
      by simp_all
    with br have b: "flags c0 = flagSampled OR flagDebug"
      "stags = [\<lparr>key = JaegerDebugHeader, val = VString (debugID ?P)\<rparr>]"
      "sampler_calls w0 = sampler_calls w" by simp_all
    from f pr have "?pr = Some ?P" by simp
    with b have "\<exists>P. ?pr = Some P \<and>
        stags = [\<lparr>key = JaegerDebugHeader, val = VString (debugID P)\<rparr>]" by simp
    with True b sc cc show ?thesis by simp
  next
    case False
    with df br have b: "sampler_calls w0 = sampler_calls w @ [(traceID c0, opName)]"
      "flags c0 = (if fst (sampler t (sampler_calls w) (traceID c0) opName) then flagSampled else 0)"
      "stags = (if fst (sampler t (sampler_calls w) (traceID c0) opName)
                then snd (sampler t (sampler_calls w) (traceID c0) opName) else [])"
      by simp_all
    with False sc cc show ?thesis by simp
  qed
  from dv ret ids fl tg part1 part2 show ?thesis by blast
qed

theorem new_trace_witness:
  "(\<exists>k. randomNumber exTracer (rand_pos exWorld + k) \<noteq> 0) \<and>
   \<not> selfReferenced (maps exWorld) [ref ChildOfRef ctxDebug] \<and>
   resolvedParent (maps exWorld) [ref ChildOfRef ctxDebug] = Some ctxDebug \<and>
   \<not> IsValid ctxDebug \<and>
   debugForced exTracer exWorld ''op'' (Some ctxDebug) \<and>
   (\<exists>sp w'. startSpanWithOptions exTracer exWorld ''op''
        \<lparr>References = [ref ChildOfRef ctxDebug], StartTime = 0, Tags = []\<rparr> = Some (Inr (sp, w')) \<and>
      Low (traceID (sp_context sp)) \<noteq> 0 \<and> High (traceID (sp_context sp)) = 0 \<and>
      spanID (sp_context sp) = Low (traceID (sp_context sp)) \<and> parentID (sp_context sp) = 0 \<and>
      flags (sp_context sp) = flagSampled OR flagDebug \<and>
      (\<exists>rest. sp_tags sp = \<lparr>key = JaegerDebugHeader, val = VString ''dbg''\<rparr> # rest) \<and>
      sampler_calls w' = []) \<and>
   \<not> selfReferenced (maps exWorld) [] \<and> resolvedParent (maps exWorld) [] = None \<and>
   (\<exists>sp w'. startSpanWithOptions exTracer exWorld ''op''
        \<lparr>References = [], StartTime = 0, Tags = []\<rparr> = Some (Inr (sp, w')) \<and>
      spanID (sp_context sp) = Low (traceID (sp_context sp)) \<and> parentID (sp_context sp) = 0 \<and>
      flags (sp_context sp) = 0 \<and>
      sampler_calls w' = [(traceID (sp_context sp), ''op'')])"
proof -
  let ?o1 = "\<lparr>References = [ref ChildOfRef ctxDebug], StartTime = 0, Tags = []\<rparr>"
  let ?o2 = "\<lparr>References = [], StartTime = 0, Tags = []\<rparr>"
  have h0: "\<exists>k. randomNumber exTracer (rand_pos exWorld + k) \<noteq> 0"
    by (rule exI [of _ 2]) (simp add: exTracer_def exWorld_def)
  have a1: "\<not> selfReferenced (maps exWorld) (References ?o1)"
    and a2: "\<not> selfReferenced (maps exWorld) (References ?o2)"
    by (simp_all add: selfReferenced_def start_defs ex_defs)
  have p1: "resolvedParent (maps exWorld) (References ?o1) = Some ctxDebug"
    and p2: "resolvedParent (maps exWorld) (References ?o2) = None"
    by (simp_all add: resolvedParent_def start_defs ex_defs)
  have v: "\<not> IsValid ctxDebug" by (simp add: ex_defs)
  have df1: "debugForced exTracer exWorld ''op'' (Some ctxDebug)"
    and df2: "\<not> debugForced exTracer exWorld ''op'' None"
    by (simp_all add: debugForced_def exTracer_def ex_defs)
  have c1: "case resolvedParent (maps exWorld) (References ?o1) of None \<Rightarrow> True
            | Some P \<Rightarrow> \<not> IsValid P" using p1 v by simp
  have c2: "case resolvedParent (maps exWorld) (References ?o2) of None \<Rightarrow> True
            | Some P \<Rightarrow> \<not> IsValid P" using p2 by simp
  have e: "SamplingPriorityKey \<notin> fst ` set (Tags ?o1)" "SamplingPriorityKey \<notin> fst ` set (Tags ?o2)"
    "\<not> gen128Bit (options exTracer)" "sampler_calls exWorld = []" "debugID ctxDebug = ''dbg''"
    "\<And>x. \<not> fst (sampler exTracer [] x ''op'')"
    by (simp_all add: exTracer_def exOptions_def ex_defs)
  from new_trace [OF h0 a1 c1, of "''op''"] df1 p1 e
  have r1: "\<exists>sp w'. startSpanWithOptions exTracer exWorld ''op'' ?o1 = Some (Inr (sp, w')) \<and>
      Low (traceID (sp_context sp)) \<noteq> 0 \<and> High (traceID (sp_context sp)) = 0 \<and>
      spanID (sp_context sp) = Low (traceID (sp_context sp)) \<and> parentID (sp_context sp) = 0 \<and>
      flags (sp_context sp) = flagSampled OR flagDebug \<and>
      (\<exists>rest. sp_tags sp = \<lparr>key = JaegerDebugHeader, val = VString ''dbg''\<rparr> # rest) \<and>
      sampler_calls w' = []"
    by auto
  from new_trace [OF h0 a2 c2, of "''op''"] df2 p2 e
  have r2': "\<exists>sp w'. startSpanWithOptions exTracer exWorld ''op'' ?o2 = Some (Inr (sp, w')) \<and>
      spanID (sp_context sp) = Low (traceID (sp_context sp)) \<and> parentID (sp_context sp) = 0 \<and>
      flags (sp_context sp) = 0 \<and>
      sampler_calls w' = [(traceID (sp_context sp), ''op'')]"
    by auto
  from h0 r1 r2' a1 a2 p1 p2 v df1 show ?thesis by simp
qed

section \<open>StartSpan: baggage\<close>

text \<open>
  C4, as stated, fails. The baggage is copied inside the block guarded by
  \<open>!isSelfRef\<close>. With a self-reference among the references, the loop still resolves a
  parent, and the new span takes the context of the self-reference as it is: with the
  self-reference to a context without baggage the span has no baggage although the parent
  has one entry; with the self-reference to a context that holds the parent's map, the
  span holds that same map, no map is allocated, and a store through the span's context
  is seen through the parent's.
\<close>

theorem baggage_self_reference_counterexample:
  "resolvedParent (maps exWorld) [ref selfRefType ctxA, ref ChildOfRef ctxBag] = Some ctxBag \<and>
   map_len (maps exWorld) (baggage ctxBag) = 1 \<and>
   map_option (\<lambda>sp. map_at (maps exWorld) (baggage (sp_context sp)))
     (spanOf (startSpanWithOptions exTracer exWorld ''op''
        \<lparr>References = [ref selfRefType ctxA, ref ChildOfRef ctxBag], StartTime = 0, Tags = []\<rparr>))
     = Some [] \<and>
   map_at (maps exWorld) (baggage ctxBag) = [(''k'', ''v'')] \<and>
   resolvedParent (maps exWorld) [ref selfRefType ctxBag, ref ChildOfRef ctxBag] = Some ctxBag \<and>
   (\<exists>sp w'. startSpanWithOptions exTracer exWorld ''op''
        \<lparr>References = [ref selfRefType ctxBag, ref ChildOfRef ctxBag], StartTime = 0, Tags = []\<rparr>
      = Some (Inr (sp, w')) \<and>
      baggage (sp_context sp) = baggage ctxBag \<and> maps w' = maps exWorld \<and>
      map_at (map_store (maps w') 0 ''k'' ''x'') (baggage ctxBag) = [(''k'', ''x'')])"
  by (simp add: resolvedParent_def start_defs ex_defs)

text \<open>
  C4, amended. For every StartSpan call that is not a self-reference and has a resolved
  parent (valid or not) whose baggage has at least one entry, when the random source
  yields a non-zero value at some later draw: the call returns a span; the baggage of its
  context is a map allocated by the call (the address is new, and not the parent's) that
  holds the entries of the parent's map; the call leaves the parent's map as it was, and
  so does every later store to and delete from the map of the span.
\<close>

theorem baggage_copied:
  assumes "\<exists>k. randomNumber t (rand_pos w + k) \<noteq> 0"
    and "\<not> selfReferenced (maps w) (References opts)"
    and "resolvedParent (maps w) (References opts) = Some P"
    and "0 < map_len (maps w) (baggage P)"
  shows "\<exists>sp w'. startSpanWithOptions t w opName opts = Some (Inr (sp, w')) \<and>
         baggage (sp_context sp) = Some (length (maps w)) \<and>
         baggage (sp_context sp) \<noteq> baggage P \<and>
         (\<exists>m. maps w' = maps w @ [m]) \<and>
         map_of (map_at (maps w') (baggage (sp_context sp))) = map_of (map_at (maps w) (baggage P)) \<and>
         map_at (maps w') (baggage P) = map_at (maps w) (baggage P) \<and>
         (\<forall>k v. map_at (map_store (maps w') (length (maps w)) k v) (baggage P)
                  = map_at (maps w) (baggage P)) \<and>
         (\<forall>k. map_at (map_delete (maps w') (length (maps w)) k) (baggage P)
                  = map_at (maps w) (baggage P))"
proof -
  let ?s = "resolveReferences (maps w) (References opts)"
  let ?w0 = "w\<lparr>logged := logged w @ rs_logged ?s\<rparr>"
  let ?h = "maps w"
  from not_selfReferenced_ctx [OF assms(2)] have ns: "\<not> rs_isSelfRef ?s" by simp
  from resolvedParent_Some [OF assms(3)] have hp: "rs_hasParent ?s" and p: "rs_parent ?s = P"
    by simp_all
  from startSpanWithOptions_result [OF assms(1), of opts opName] obtain c stags nt w1 sp w' where
    d: "deriveContext t ?w0 opName (isRPCServer (Tags opts)) ?s = Some ((c, stags, nt), w1)"
    and ret: "startSpanWithOptions t w opName opts = Some (Inr (sp, w'))"
    and b: "baggage (sp_context sp) = baggage c" and m: "maps w' = maps w1"
    by blast
  from deriveContext_baggage [OF d ns hp] p obtain c0 w0 where
    c: "c = fst (copyBaggage (maps w0) c0 P)"
    and w1: "w1 = w0\<lparr>maps := snd (copyBaggage (maps w0) c0 P)\<rparr>"
    and h: "maps w0 = ?h"
    by auto
  from copyBaggage_result [OF assms(4), of c0] obtain mp where
    cb: "copyBaggage ?h c0 P = (c0\<lparr>baggage := Some (length ?h)\<rparr>, ?h @ [mp])"
    and mo: "map_of mp = map_of (map_at ?h (baggage P))"
    by blast
  from map_len_address [OF assms(4)] obtain a where a: "baggage P = Some a" "a < length ?h"
    by blast
  from b c h cb have bs: "baggage (sp_context sp) = Some (length ?h)" by simp
  from m w1 h cb have ms: "maps w' = ?h @ [mp]" by simp
  have new: "map_at (?h @ [mp]) (Some (length ?h)) = mp" by (simp add: map_at_def)
  note old = map_at_old [OF a(2), of mp]
  from bs a have "baggage (sp_context sp) \<noteq> baggage P" by simp
  with bs ms mo new old a have
    "baggage (sp_context sp) = Some (length (maps w)) \<and>
     baggage (sp_context sp) \<noteq> baggage P \<and>
     (\<exists>m. maps w' = maps w @ [m]) \<and>
     map_of (map_at (maps w') (baggage (sp_context sp))) = map_of (map_at (maps w) (baggage P)) \<and>
     map_at (maps w') (baggage P) = map_at (maps w) (baggage P) \<and>
     (\<forall>k v. map_at (map_store (maps w') (length (maps w)) k v) (baggage P)
              = map_at (maps w) (baggage P)) \<and>
     (\<forall>k. map_at (map_delete (maps w') (length (maps w)) k) (baggage P)
              = map_at (maps w) (baggage P))"
    by simp
  with ret show ?thesis by blast
qed

theorem baggage_copied_witness:
  "(\<exists>k. randomNumber exTracer (rand_pos exWorld + k) \<noteq> 0) \<and>
   \<not> selfReferenced (maps exWorld) [ref ChildOfRef ctxBag] \<and>
   resolvedParent (maps exWorld) [ref ChildOfRef ctxBag] = Some ctxBag \<and>
   0 < map_len (maps exWorld) (baggage ctxBag) \<and>
   (\<exists>sp w'. startSpanWithOptions exTracer exWorld ''op''
        \<lparr>References = [ref ChildOfRef ctxBag], StartTime = 0, Tags = []\<rparr> = Some (Inr (sp, w')) \<and>
      baggage (sp_context sp) = Some 1 \<and>
      map_of (map_at (maps w') (baggage (sp_context sp))) = map_of [(''k'', ''v'')] \<and>
      map_at (map_store (maps w') 1 ''k'' ''x'') (baggage ctxBag) = [(''k'', ''v'')])"
proof -
  let ?o = "\<lparr>References = [ref ChildOfRef ctxBag], StartTime = 0, Tags = []\<rparr>"
  have h0: "\<exists>k. randomNumber exTracer (rand_pos exWorld + k) \<noteq> 0"
    by (rule exI [of _ 2]) (simp add: exTracer_def exWorld_def)
  have h1: "\<not> selfReferenced (maps exWorld) (References ?o)"
    by (simp add: selfReferenced_def start_defs ex_defs)
  have h2: "resolvedParent (maps exWorld) (References ?o) = Some ctxBag"
    by (simp add: resolvedParent_def start_defs ex_defs)
  have h3: "0 < map_len (maps exWorld) (baggage ctxBag)" by (simp add: ex_defs)
  have e: "length (maps exWorld) = 1" "map_at (maps exWorld) (baggage ctxBag) = [(''k'', ''v'')]"
    by (simp_all add: ex_defs)
  from baggage_copied [OF h0 h1 h2 h3, of "''op''"] obtain sp w' where
    r: "startSpanWithOptions exTracer exWorld ''op'' ?o = Some (Inr (sp, w'))"
    and b: "baggage (sp_context sp) = Some (length (maps exWorld))"
    and m: "map_of (map_at (maps w') (baggage (sp_context sp)))
              = map_of (map_at (maps exWorld) (baggage ctxBag))"
    and f: "\<forall>k v. map_at (map_store (maps w') (length (maps exWorld)) k v) (baggage ctxBag)
                  = map_at (maps exWorld) (baggage ctxBag)"
    by blast
  from f have "map_at (map_store (maps w') (length (maps exWorld)) ''k'' ''x'') (baggage ctxBag)
                  = map_at (maps exWorld) (baggage ctxBag)" by blast
  with r b m e have "startSpanWithOptions exTracer exWorld ''op'' ?o = Some (Inr (sp, w')) \<and>
      baggage (sp_context sp) = Some 1 \<and>
      map_of (map_at (maps w') (baggage (sp_context sp))) = map_of [(''k'', ''v'')] \<and>
      map_at (map_store (maps w') 1 ''k'' ''x'') (baggage ctxBag) = [(''k'', ''v'')]"
    by simp
  then have "\<exists>sp w'. startSpanWithOptions exTracer exWorld ''op'' ?o = Some (Inr (sp, w')) \<and>
      baggage (sp_context sp) = Some 1 \<and>
      map_of (map_at (maps w') (baggage (sp_context sp))) = map_of [(''k'', ''v'')] \<and>
      map_at (map_store (maps w') 1 ''k'' ''x'') (baggage ctxBag) = [(''k'', ''v'')]"
    by blast
  with h0 h1 h2 h3 show ?thesis by simp
qed


section \<open>StartSpan: the sampling-priority tag\<close>

lemma sampled_set: "(f OR flagSampled) AND flagSampled = flagSampled" for f :: byte
  by (simp add: word_ao_absorbs)

lemma sampled_clear: "(f AND NOT flagSampled) AND flagSampled \<noteq> flagSampled" for f :: byte
proof -
  have "(f AND NOT flagSampled) AND flagSampled = 0"
    by (simp add: word_bw_assocs)
  then show ?thesis by (simp add: flagSampled_def)
qed

lemma debug_sampled_set:
  "(f OR flagDebug OR flagSampled) AND flagSampled = flagSampled"
  "(f OR flagDebug OR flagSampled) AND flagDebug = flagDebug" for f :: byte
  by (rule bit_eqI, auto simp add: bit_and_iff bit_or_iff)+

lemma priorityView_uint16:
  "priorityView (setSamplingPriority w (preparedSpan t c opName start stags rpc refs) (VUint16 n)) =
     (if n = 0 then Some (True, c\<lparr>flags := flags c AND NOT flagSampled\<rparr>, throttler_calls w)
      else if noDebugFlagOnForcedSampling (options t)
      then Some (True, c\<lparr>flags := flags c OR flagSampled\<rparr>, throttler_calls w)
      else if debugThrottler t (throttler_calls w) opName
      then Some (True, c\<lparr>flags := flags c OR flagDebug OR flagSampled\<rparr>, throttler_calls w @ [opName])
      else Some (False, c, throttler_calls w @ [opName]))"
  by (simp add: priorityView_def setSamplingPriority_def preparedSpan_def setFlags_def
      isDebugAllowed_def newSpan_def)

text \<open>
  C5, as stated, fails. A priority greater than 0 is forced sampling with the debug flag,
  which the debug throttler may deny: with a throttler that denies, priority 1 leaves the
  span unsampled. And a priority that was applied is stored on the span as a tag as well:
  the loop skips the storage only when setSamplingPriority returns false.
\<close>

theorem priority_tag_counterexample:
  "map_option (\<lambda>sp. (IsSampled (sp_context sp), sp_tags sp))
     (spanOf (startSpanWithOptions exDenyingTracer exWorld ''op''
        \<lparr>References = [], StartTime = 0, Tags = [(SamplingPriorityKey, VUint16 1)]\<rparr>))
     = Some (False, []) \<and>
   map_option (\<lambda>sp. (IsSampled (sp_context sp), sp_tags sp))
     (spanOf (startSpanWithOptions exTracer exWorld ''op''
        \<lparr>References = [], StartTime = 0, Tags = [(SamplingPriorityKey, VUint16 1)]\<rparr>))
     = Some (True, [\<lparr>key = SamplingPriorityKey, val = VUint16 1\<rparr>]) \<and>
   map_option (\<lambda>sp. (IsSampled (sp_context sp), sp_tags sp))
     (spanOf (startSpanWithOptions exTracer exWorld ''op''
        \<lparr>References = [ref ChildOfRef ctxA], StartTime = 0,
         Tags = [(SamplingPriorityKey, VUint16 0)]\<rparr>))
     = Some (False, [\<lparr>key = SamplingPriorityKey, val = VUint16 0\<rparr>])"
  by (simp add: start_defs ex_defs)

text \<open>
  C5, amended. For every StartSpan call whose tags (a map: the keys are distinct) give the
  sampling-priority key a 16-bit unsigned value, when the random source yields a non-zero
  value at some later draw: the call returns a span, whose tags begin with the sampler
  tags. With the value 0 the sampled flag of the derived context is cleared and the tag is
  stored. With a value greater than 0 and the option \<open>noDebugFlagOnForcedSampling\<close> the
  sampled flag is set and the tag is stored. With a value greater than 0 and without the
  option the debug throttler is asked once, for the operation of the span: when it allows,
  the sampled and the debug flag are set and the tag is stored; when it denies, the context
  is the derived one, whatever the sampler said, and the tag is not stored. Nothing but
  the two flags changes in the context.
\<close>

theorem sampling_priority_tag:
  assumes "\<exists>k. randomNumber t (rand_pos w + k) \<noteq> 0"
    and "distinct (map fst (Tags opts))"
    and "map_of (Tags opts) SamplingPriorityKey = Some (VUint16 n)"
  shows "\<exists>c stags nt w1 sp w' rest.
     derived t w opName opts = Some ((c, stags, nt), w1) \<and>
     startSpanWithOptions t w opName opts = Some (Inr (sp, w')) \<and>
     sp_tags sp = stags @ rest \<and>
     (if n = 0
      then sp_context sp = c\<lparr>flags := flags c AND NOT flagSampled\<rparr> \<and>
           \<not> IsSampled (sp_context sp) \<and>
           \<lparr>key = SamplingPriorityKey, val = VUint16 n\<rparr> \<in> set rest \<and>
           throttler_calls w' = throttler_calls w1
      else if noDebugFlagOnForcedSampling (options t)
      then sp_context sp = c\<lparr>flags := flags c OR flagSampled\<rparr> \<and>
           IsSampled (sp_context sp) \<and>
           \<lparr>key = SamplingPriorityKey, val = VUint16 n\<rparr> \<in> set rest \<and>
           throttler_calls w' = throttler_calls w1
      else throttler_calls w' = throttler_calls w1 @ [opName] \<and>
           (if debugThrottler t (throttler_calls w1) opName
            then sp_context sp = c\<lparr>flags := flags c OR flagDebug OR flagSampled\<rparr> \<and>
                 IsSampled (sp_context sp) \<and> IsDebug (sp_context sp) \<and>
                 \<lparr>key = SamplingPriorityKey, val = VUint16 n\<rparr> \<in> set rest
            else sp_context sp = c \<and>
                 \<lparr>key = SamplingPriorityKey, val = VUint16 n\<rparr> \<notin> set rest))"
proof -
  let ?s = "resolveReferences (maps w) (References opts)"
  let ?tag = "\<lparr>key = SamplingPriorityKey, val = VUint16 n\<rparr>"
  from startSpanWithOptions_returns [OF assms(1), of opts opName] obtain c stags nt w1 where
    d: "deriveContext t (w\<lparr>logged := logged w @ rs_logged ?s\<rparr>) opName (isRPCServer (Tags opts)) ?s
          = Some ((c, stags, nt), w1)"
    and e: "startSpanWithOptions t w opName opts =
      Some (startSpanInternal t (w1\<lparr>observed := observed w1 @ [OnStartSpan opName]\<rparr>)
            (newSpan\<lparr>sp_context := c\<rparr>) opName
            (if StartTime opts = 0 then timeNow t else StartTime opts) stags (Tags opts) nt
            (isRPCServer (Tags opts)) (rs_references ?s))"
    by blast
  from d have dv: "derived t w opName opts = Some ((c, stags, nt), w1)"
    by (simp add: derived_def Let_def)
  let ?w2 = "w1\<lparr>observed := observed w1 @ [OnStartSpan opName]\<rparr>"
  let ?start = "if StartTime opts = 0 then timeNow t else StartTime opts"
  from startSpanInternal_priority [OF assms(2,3), of t ?w2 c opName ?start stags nt
      "isRPCServer (Tags opts)" "rs_references ?s"]
  obtain sp w' ok rest where
    r: "startSpanInternal t ?w2 (newSpan\<lparr>sp_context := c\<rparr>) opName ?start stags (Tags opts) nt
          (isRPCServer (Tags opts)) (rs_references ?s) = Inr (sp, w')"
    and pv: "priorityView (setSamplingPriority ?w2
               (preparedSpan t c opName ?start stags (isRPCServer (Tags opts)) (rs_references ?s))
               (VUint16 n)) = Some (ok, sp_context sp, throttler_calls w')"
    and tg: "sp_tags sp = stags @ rest"
    and mem: "(?tag \<in> set rest) = ok"
    by blast
  from e r have ret: "startSpanWithOptions t w opName opts = Some (Inr (sp, w'))" by simp
  note pu = priorityView_uint16 [of ?w2 t c opName ?start stags "isRPCServer (Tags opts)"
      "rs_references ?s" n]
  have body: "if n = 0
      then sp_context sp = c\<lparr>flags := flags c AND NOT flagSampled\<rparr> \<and>
           \<not> IsSampled (sp_context sp) \<and> ?tag \<in> set rest \<and>
           throttler_calls w' = throttler_calls w1
      else if noDebugFlagOnForcedSampling (options t)
      then sp_context sp = c\<lparr>flags := flags c OR flagSampled\<rparr> \<and>
           IsSampled (sp_context sp) \<and> ?tag \<in> set rest \<and>
           throttler_calls w' = throttler_calls w1
      else throttler_calls w' = throttler_calls w1 @ [opName] \<and>
           (if debugThrottler t (throttler_calls w1) opName
            then sp_context sp = c\<lparr>flags := flags c OR flagDebug OR flagSampled\<rparr> \<and>
                 IsSampled (sp_context sp) \<and> IsDebug (sp_context sp) \<and> ?tag \<in> set rest
            else sp_context sp = c \<and> ?tag \<notin> set rest)"
  proof (cases "n = 0")
    case True
    with pv pu have "ok" "sp_context sp = c\<lparr>flags := flags c AND NOT flagSampled\<rparr>"
      "throttler_calls w' = throttler_calls w1" by simp_all
    with mem True show ?thesis by (simp add: IsSampled_def sampled_clear)
  next
    case n: False
    show ?thesis
    proof (cases "noDebugFlagOnForcedSampling (options t)")
      case True
      with n pv pu have "ok" "sp_context sp = c\<lparr>flags := flags c OR flagSampled\<rparr>"
        "throttler_calls w' = throttler_calls w1" by simp_all
      with mem n True show ?thesis by (simp add: IsSampled_def sampled_set)
    next
      case o: False
      show ?thesis
      proof (cases "debugThrottler t (throttler_calls w1) opName")
        case True
        with n o pv pu have "ok"
          "sp_context sp = c\<lparr>flags := flags c OR flagDebug OR flagSampled\<rparr>"
          "throttler_calls w' = throttler_calls w1 @ [opName]" by simp_all
        with mem n o True show ?thesis
          by (simp add: IsSampled_def IsDebug_def debug_sampled_set)
      next
        case False
        with n o pv pu have "\<not> ok" "sp_context sp = c"
          "throttler_calls w' = throttler_calls w1 @ [opName]" by simp_all
        with mem n o False show ?thesis by simp
      qed
    qed
  qed
  from dv ret tg body show ?thesis by blast
qed

theorem sampling_priority_tag_witness:
  "(\<exists>k. randomNumber exDenyingTracer (rand_pos exWorld + k) \<noteq> 0) \<and>
   distinct (map fst [(''a'', VBool True), (SamplingPriorityKey, VUint16 1)]) \<and>
   map_of [(''a'', VBool True), (SamplingPriorityKey, VUint16 1)] SamplingPriorityKey
     = Some (VUint16 1) \<and>
   (\<exists>c stags nt w1 sp w' rest.
      derived exDenyingTracer exWorld ''op''
        \<lparr>References = [ref ChildOfRef ctxA], StartTime = 0,
         Tags = [(''a'', VBool True), (SamplingPriorityKey, VUint16 1)]\<rparr>
        = Some ((c, stags, nt), w1) \<and>
      startSpanWithOptions exDenyingTracer exWorld ''op''
        \<lparr>References = [ref ChildOfRef ctxA], StartTime = 0,
         Tags = [(''a'', VBool True), (SamplingPriorityKey, VUint16 1)]\<rparr>
        = Some (Inr (sp, w')) \<and>
      sp_tags sp = stags @ rest \<and>
      throttler_calls w' = throttler_calls w1 @ [''op''] \<and> sp_context sp = c \<and>
      \<lparr>key = SamplingPriorityKey, val = VUint16 1\<rparr> \<notin> set rest)"
proof -
  let ?o = "\<lparr>References = [ref ChildOfRef ctxA], StartTime = 0,
         Tags = [(''a'', VBool True), (SamplingPriorityKey, VUint16 1)]\<rparr>"
  have h0: "\<exists>k. randomNumber exDenyingTracer (rand_pos exWorld + k) \<noteq> 0"
    by (rule exI [of _ 2]) (simp add: exDenyingTracer_def exTracer_def exWorld_def)
  have h1: "distinct (map fst (Tags ?o))" by (simp add: SamplingPriorityKey_def)
  have h2: "map_of (Tags ?o) SamplingPriorityKey = Some (VUint16 1)"
    by (simp add: SamplingPriorityKey_def)
  have e: "\<not> noDebugFlagOnForcedSampling (options exDenyingTracer)"
    "\<And>cs. \<not> debugThrottler exDenyingTracer cs ''op''"
    by (simp_all add: exDenyingTracer_def exTracer_def exOptions_def)
  from sampling_priority_tag [OF h0 h1 h2, of "''op''"] e
  have "\<exists>c stags nt w1 sp w' rest.
      derived exDenyingTracer exWorld ''op'' ?o = Some ((c, stags, nt), w1) \<and>
      startSpanWithOptions exDenyingTracer exWorld ''op'' ?o = Some (Inr (sp, w')) \<and>
      sp_tags sp = stags @ rest \<and>
      throttler_calls w' = throttler_calls w1 @ [''op''] \<and> sp_context sp = c \<and>
      \<lparr>key = SamplingPriorityKey, val = VUint16 1\<rparr> \<notin> set rest"
    by simp
  with h0 h1 h2 show ?thesis by simp
qed


section \<open>Reporting: properties\<close>

lemma Retain_funpow:
  "(Retain ^^ k) sp = sp\<lparr>referenceCounter := referenceCounter sp + int k\<rparr>"
proof (induction k)
  case 0
  show ?case by simp
next
  case (Suc k)
  then show ?case by (simp add: Retain_def)
qed

text \<open>
  C8, as stated, fails. reportSpan calls Release once, which takes one reference away;
  the record goes back to the allocator only when that takes the count below zero. A
  reporter that retains the span it is given, as one that processes spans asynchronously
  must, keeps the record: after reportSpan the allocator has got nothing back.
\<close>

theorem retained_span_counterexample:
  "IsSampled ctxA \<and>
   reported (snd (reportSpan exRetainingTracer exWorld (newSpan\<lparr>sp_context := ctxA\<rparr>)))
     = [newSpan\<lparr>sp_context := ctxA\<rparr>] \<and>
   released (snd (reportSpan exRetainingTracer exWorld (newSpan\<lparr>sp_context := ctxA\<rparr>))) = [] \<and>
   referenceCounter (fst (reportSpan exRetainingTracer exWorld (newSpan\<lparr>sp_context := ctxA\<rparr>))) = 0"
  by (simp add: reportSpan_def Report_def Release_def Retain_def inc_def Let_def IsSampled_def
      flagSampled_def ctxA_def exWorld_def exMetrics_def exRetainingTracer_def exTracer_def
      newSpan_def)

text \<open>
  C8, amended. reportSpan adds exactly one to the counter of finished spans and leaves the
  other counters alone; the reporter is given the span if and only if the span's context
  is sampled, and nothing else; Release is called once in either case: the reference
  count of the span ends one below where the reporter left it, and the record goes back
  to the allocator exactly when that is below zero, that is, when no retain is
  outstanding. A span that is not sampled and was not retained is given back without
  being reported.
\<close>

theorem reportSpan_effects:
  "metrics (snd (reportSpan t w sp))
     = (metrics w)\<lparr>SpansFinished := SpansFinished (metrics w) + 1\<rparr> \<and>
   reported (snd (reportSpan t w sp)) =
     (if IsSampled (sp_context sp) then reported w @ [sp] else reported w) \<and>
   fst (reportSpan t w sp) =
     sp\<lparr>referenceCounter := referenceCounter sp
       + (if IsSampled (sp_context sp) then int (reporter t (length (reported w)) (sp_context sp))
          else 0) - 1\<rparr> \<and>
   released (snd (reportSpan t w sp)) =
     (if referenceCounter (fst (reportSpan t w sp)) = - 1
      then released w @ [fst (reportSpan t w sp)] else released w)"
  by (simp add: reportSpan_def Let_def inc_def Report_def Release_def Retain_funpow)

theorem reportSpan_effects_witness:
  "IsSampled ctxA \<and> \<not> IsSampled ctxB \<and>
   SpansFinished (metrics (snd (reportSpan exTracer exWorld (newSpan\<lparr>sp_context := ctxA\<rparr>)))) = 1 \<and>
   reported (snd (reportSpan exTracer exWorld (newSpan\<lparr>sp_context := ctxA\<rparr>)))
     = [newSpan\<lparr>sp_context := ctxA\<rparr>] \<and>
   released (snd (reportSpan exTracer exWorld (newSpan\<lparr>sp_context := ctxA\<rparr>)))
     = [newSpan\<lparr>sp_context := ctxA, referenceCounter := - 1\<rparr>] \<and>
   reported (snd (reportSpan exTracer exWorld (newSpan\<lparr>sp_context := ctxB\<rparr>))) = [] \<and>
   released (snd (reportSpan exTracer exWorld (newSpan\<lparr>sp_context := ctxB\<rparr>)))
     = [newSpan\<lparr>sp_context := ctxB, referenceCounter := - 1\<rparr>]"
proof -
  let ?a = "newSpan\<lparr>sp_context := ctxA\<rparr>"
  let ?b = "newSpan\<lparr>sp_context := ctxB\<rparr>"
  have s: "IsSampled (sp_context ?a)" "\<not> IsSampled (sp_context ?b)"
    by (simp_all add: IsSampled_def flagSampled_def ctxA_def ctxB_def)
  have e: "reporter exTracer (length (reported exWorld)) (sp_context ?a) = 0"
    "referenceCounter ?a = 0" "referenceCounter ?b = 0"
    "reported exWorld = []" "released exWorld = []" "SpansFinished (metrics exWorld) = 0"
    by (simp_all add: exTracer_def newSpan_def exWorld_def exMetrics_def)
  from reportSpan_effects [of exTracer exWorld ?a] s(1) e
  have a: "SpansFinished (metrics (snd (reportSpan exTracer exWorld ?a))) = 1"
    "reported (snd (reportSpan exTracer exWorld ?a)) = [?a]"
    "released (snd (reportSpan exTracer exWorld ?a)) = [?a\<lparr>referenceCounter := - 1\<rparr>]"
    by simp_all
  from reportSpan_effects [of exTracer exWorld ?b] s(2) e
  have b: "reported (snd (reportSpan exTracer exWorld ?b)) = []"
    "released (snd (reportSpan exTracer exWorld ?b)) = [?b\<lparr>referenceCounter := - 1\<rparr>]"
    by simp_all
  from s a b show ?thesis by simp
qed

end
